theory Spec2Isabelle
  imports Complex_Main
begin

section \<open>The JavaScript runtime, as far as script.js uses it\<close>

text \<open>
  The page script keeps its progress in a \<open>ProgressTracker\<close> and its navigation in a
  \<open>PageManager\<close>, both created once when the script is loaded. Every method runs to
  completion inside one event handler, so a method is a function from the state before the
  call to an outcome and the state after it. An exception is an outcome too: the state
  reached when it is thrown stays, because nothing in these two classes catches it.
\<close>

datatype error = SyntaxError | TypeError | QuotaExceededError

subsection \<open>Set and Map\<close>

text \<open>
  A \<open>Set\<close> of strings is the list of its members in insertion order, which is the order
  \<open>Array.from\<close> enumerates. \<open>add\<close> keeps a member that is already there where it is.
\<close>

definition set_has :: "'a list \<Rightarrow> 'a \<Rightarrow> bool" where
  "set_has s x = (x \<in> set s)"

definition set_add :: "'a list \<Rightarrow> 'a \<Rightarrow> 'a list" where
  "set_add s x = (if set_has s x then s else s @ [x])"

definition new_Set :: "'a list \<Rightarrow> 'a list" where
  "new_Set xs = foldl set_add [] xs"

text \<open>
  A \<open>Map\<close> that the code enumerates (\<open>achievements\<close>, \<open>pages\<close>) is an association list in
  insertion order; \<open>set\<close> on a key that is present replaces the value in place.
\<close>

definition map_has :: "('k \<times> 'v) list \<Rightarrow> 'k \<Rightarrow> bool" where
  "map_has m k = (k \<in> set (map fst m))"

fun map_set :: "('k \<times> 'v) list \<Rightarrow> 'k \<Rightarrow> 'v \<Rightarrow> ('k \<times> 'v) list" where
  "map_set [] k v = [(k, v)]"
| "map_set ((k', v') # m) k v =
     (if k' = k then (k, v) # m else (k', v') # map_set m k v)"

definition new_Map :: "('k \<times> 'v) list \<Rightarrow> ('k \<times> 'v) list" where
  "new_Map entries = foldl (\<lambda>m (k, v). map_set m k v) [] entries"

subsection \<open>Property lookup on an object literal\<close>

text \<open>
  \<open>obj[key]\<close> on an object literal finds the literal's own property, and otherwise the
  member of that name on \<open>Object.prototype\<close>, which every object literal inherits from;
  only a name that is neither gives \<open>undefined\<close>. The inherited members are functions
  (and, for \<open>__proto__\<close>, the prototype object itself): they are truthy, they are not
  numbers, and they have no \<open>title\<close>, \<open>description\<close> or \<open>icon\<close>.
\<close>

datatype 'a property = Own 'a | Inherited | Missing

definition object_prototype_names :: "string list" where
  "object_prototype_names =
     [''constructor'', ''hasOwnProperty'', ''isPrototypeOf'', ''propertyIsEnumerable'',
      ''toLocaleString'', ''toString'', ''valueOf'', ''__proto__'',
      ''__defineGetter__'', ''__defineSetter__'', ''__lookupGetter__'', ''__lookupSetter__'']"

definition get_property :: "(string \<times> 'a) list \<Rightarrow> string \<Rightarrow> 'a property" where
  "get_property obj key =
     (case map_of obj key of
        Some v \<Rightarrow> Own v
      | None \<Rightarrow> if key \<in> set object_prototype_names then Inherited else Missing)"

section \<open>Data model\<close>

text \<open>
  The display data of an achievement, and the record \<open>unlockAchievement\<close> stores. A field
  is \<open>None\<close> where the JavaScript object has \<open>undefined\<close> there. Icons are emoji, written
  here as their UTF-8 bytes.
\<close>

record achievement_data =
  title :: "string option"
  description :: "string option"
  icon :: "string option"

record achievement = achievement_data +
  ach_id :: string
  unlockedAt :: string

text \<open>
  What the maps \<open>completedInteractions\<close> and \<open>collectibles\<close> hold for a page: the live
  \<open>Set\<close> that \<open>markInteractionComplete\<close> and \<open>addCollectible\<close> create, or the plain data
  that \<open>loadProgress\<close> puts there, which is whatever \<open>JSON.parse\<close> returned for that
  key. Of plain data the model has the two values a snapshot can hold for a page: the empty
  object \<open>{}\<close>, which is what \<open>JSON.stringify\<close> writes for a \<open>Set\<close> (a \<open>Set\<close> has no
  enumerable own properties), and an array of strings.
\<close>

datatype plain = EmptyObject | StringArray "string list"

datatype container = LiveSet "string list" | PlainData plain

definition to_json :: "container \<Rightarrow> plain" where
  "to_json c = (case c of LiveSet members \<Rightarrow> EmptyObject | PlainData p \<Rightarrow> p)"

text \<open>
  The document stored under the key \<open>birthdayProgress\<close>, as \<open>JSON.parse\<close> returns it.
  A field is \<open>None\<close> when the key is missing from the document. The two per-page objects
  are maps from their keys, because their key order is never observed.
\<close>

record snapshot =
  visitedPages_json :: "string list option"
  completedInteractions_json :: "(string \<rightharpoonup> plain) option"
  unlockedSecrets_json :: "string list option"
  achievements_json :: "achievement list option"
  collectibles_json :: "(string \<rightharpoonup> plain) option"
  lastVisit_json :: "string option"

text \<open>
  What \<open>localStorage.getItem('birthdayProgress')\<close> returns: \<open>null\<close>, the empty string, a
  text on which \<open>JSON.parse\<close> throws, or the text of a document.
\<close>

datatype stored = NoItem | EmptyText | Unparseable | Document snapshot

text \<open>
  The state: the fields of the \<open>ProgressTracker\<close>, the fields of the \<open>PageManager\<close> that
  own it, and the part of the browser both use. \<open>storageFull\<close> says that
  \<open>localStorage.setItem\<close> throws. \<open>clock\<close> gives the successive readings of
  \<open>new Date().toISOString()\<close> and \<open>ticks\<close> counts the readings taken. \<open>elements\<close> says
  for which pages \<open>document.querySelector\<close> finds a \<open>data-page\<close> element. The last three
  fields record what was handed to the presentation: the messages of \<open>console.error\<close>,
  the calls of \<open>executeTransition\<close> (from, to, kind) and the calls of
  \<open>showAchievementNotification\<close>.
\<close>

record app =
  visitedPages :: "string list"
  completedInteractions :: "string \<rightharpoonup> container"
  unlockedSecrets :: "string list"
  achievements :: "(string \<times> achievement) list"
  collectibles :: "string \<rightharpoonup> container"
  currentPage :: string
  pageHistory :: "string list"
  pages :: "(string \<times> string) list"
  localStorage :: stored
  storageFull :: bool
  clock :: "nat \<Rightarrow> string"
  ticks :: nat
  elements :: "string \<Rightarrow> bool"
  console :: "string list"
  transitions :: "(string \<times> string \<times> string) list"
  notifications :: "achievement_data list"

definition and_then ::
  "(error + 'x) \<times> app \<Rightarrow> ('x \<Rightarrow> app \<Rightarrow> (error + 'y) \<times> app) \<Rightarrow> (error + 'y) \<times> app" where
  "and_then r f = (case r of (Inl e, a) \<Rightarrow> (Inl e, a) | (Inr x, a) \<Rightarrow> f x a)"

definition new_Date_toISOString :: "app \<Rightarrow> string \<times> app" where
  "new_Date_toISOString a = (clock a (ticks a), a\<lparr>ticks := Suc (ticks a)\<rparr>)"

section \<open>ProgressTracker\<close>

definition loadProgress :: "app \<Rightarrow> (error + unit) \<times> app" where
  "loadProgress a =
     (case localStorage a of
        NoItem \<Rightarrow> (Inr (), a)
      | EmptyText \<Rightarrow> (Inr (), a)
      | Unparseable \<Rightarrow> (Inl SyntaxError, a)
      | Document progress \<Rightarrow>
          (Inr (),
           a\<lparr>visitedPages :=
               new_Set (case visitedPages_json progress of None \<Rightarrow> [] | Some xs \<Rightarrow> xs),
             completedInteractions :=
               (case completedInteractions_json progress of
                  None \<Rightarrow> Map.empty
                | Some obj \<Rightarrow> map_option PlainData \<circ> obj),
             unlockedSecrets :=
               new_Set (case unlockedSecrets_json progress of None \<Rightarrow> [] | Some xs \<Rightarrow> xs),
             achievements :=
               new_Map (case achievements_json progress of
                          None \<Rightarrow> []
                        | Some records \<Rightarrow> map (\<lambda>r. (ach_id r, r)) records),
             collectibles :=
               (case collectibles_json progress of
                  None \<Rightarrow> Map.empty
                | Some obj \<Rightarrow> map_option PlainData \<circ> obj)\<rparr>))"

definition new_ProgressTracker :: "app \<Rightarrow> (error + unit) \<times> app" where
  "new_ProgressTracker a =
     loadProgress
       (a\<lparr>visitedPages := [], completedInteractions := Map.empty, unlockedSecrets := [],
          achievements := [], collectibles := Map.empty\<rparr>)"

definition progress_json :: "app \<Rightarrow> string \<Rightarrow> snapshot" where
  "progress_json a stamp =
     \<lparr>visitedPages_json = Some (visitedPages a),
      completedInteractions_json = Some (map_option to_json \<circ> completedInteractions a),
      unlockedSecrets_json = Some (unlockedSecrets a),
      achievements_json = Some (map snd (achievements a)),
      collectibles_json = Some (map_option to_json \<circ> collectibles a),
      lastVisit_json = Some stamp\<rparr>"

definition saveProgress :: "app \<Rightarrow> (error + unit) \<times> app" where
  "saveProgress a =
     (let (stamp, a1) = new_Date_toISOString a;
          progress = progress_json a1 stamp
      in if storageFull a1 then (Inl QuotaExceededError, a1)
         else (Inr (), a1\<lparr>localStorage := Document progress\<rparr>))"

definition markPageVisited :: "string \<Rightarrow> app \<Rightarrow> (error + bool) \<times> app" where
  "markPageVisited pageId a =
     (if \<not> set_has (visitedPages a) pageId
      then and_then (saveProgress (a\<lparr>visitedPages := set_add (visitedPages a) pageId\<rparr>))
             (\<lambda>_ a'. (Inr True, a'))
      else (Inr False, a))"

definition markInteractionComplete :: "string \<Rightarrow> string \<Rightarrow> app \<Rightarrow> (error + bool) \<times> app" where
  "markInteractionComplete pageId interactionId a =
     (let a1 = (if completedInteractions a pageId = None
                then a\<lparr>completedInteractions := (completedInteractions a)(pageId \<mapsto> LiveSet [])\<rparr>
                else a)
      in case completedInteractions a1 pageId of
           Some (LiveSet pageInteractions) \<Rightarrow>
             if \<not> set_has pageInteractions interactionId
             then and_then
                    (saveProgress
                       (a1\<lparr>completedInteractions :=
                             (completedInteractions a1)
                               (pageId \<mapsto> LiveSet (set_add pageInteractions interactionId))\<rparr>))
                    (\<lambda>_ a'. (Inr True, a'))
             else (Inr False, a1)
         | _ \<Rightarrow> (Inl TypeError, a1))"

definition unlockSecret :: "string \<Rightarrow> app \<Rightarrow> (error + bool) \<times> app" where
  "unlockSecret secretId a =
     (if \<not> set_has (unlockedSecrets a) secretId
      then and_then (saveProgress (a\<lparr>unlockedSecrets := set_add (unlockedSecrets a) secretId\<rparr>))
             (\<lambda>_ a'. (Inr True, a'))
      else (Inr False, a))"

definition addCollectible :: "string \<Rightarrow> string \<Rightarrow> app \<Rightarrow> (error + bool) \<times> app" where
  "addCollectible pageId collectibleId a =
     (let a1 = (if collectibles a pageId = None
                then a\<lparr>collectibles := (collectibles a)(pageId \<mapsto> LiveSet [])\<rparr>
                else a)
      in case collectibles a1 pageId of
           Some (LiveSet pageCollectibles) \<Rightarrow>
             if \<not> set_has pageCollectibles collectibleId
             then and_then
                    (saveProgress
                       (a1\<lparr>collectibles :=
                             (collectibles a1)
                               (pageId \<mapsto> LiveSet (set_add pageCollectibles collectibleId))\<rparr>))
                    (\<lambda>_ a'. (Inr True, a'))
             else (Inr False, a1)
         | _ \<Rightarrow> (Inl TypeError, a1))"

definition validPages :: "string list" where
  "validPages = new_Set [''gallery'', ''reasons'', ''wishes'', ''games'']"

text \<open>
  \<open>visitedCount / totalPages * 100\<close> is computed in double precision; for a count below
  \<open>2^53\<close> the quotient by four and its product with a hundred are exact, so the rational
  number is the double. \<open>Math.round\<close> rounds a half up, as \<open>round\<close> does.
\<close>

definition getCompletionPercentage :: "app \<Rightarrow> int" where
  "getCompletionPercentage a =
     (let totalPages = 4;
          visitedCount = length (filter (\<lambda>page. set_has validPages page) (visitedPages a))
      in round ((rat_of_nat visitedCount / totalPages) * 100))"

definition completionCriteria :: "(string \<times> nat) list" where
  "completionCriteria = [(''gallery'', 2), (''reasons'', 3), (''wishes'', 1), (''games'', 1)]"

text \<open>
  \<open>completionCriteria[pageId] || 1\<close>, as the operand of \<open>>=\<close>: a number, or a value that
  converts to \<open>NaN\<close> (an inherited member), against which every comparison is false.
\<close>

datatype operand = Number nat | NotANumber

definition required :: "string \<Rightarrow> operand" where
  "required pageId =
     (case get_property completionCriteria pageId of
        Own n \<Rightarrow> if n = 0 then Number 1 else Number n
      | Inherited \<Rightarrow> NotANumber
      | Missing \<Rightarrow> Number 1)"

text \<open>\<open>.size\<close>: the number of members of a \<open>Set\<close>, \<open>undefined\<close> on plain data.\<close>

definition size_of :: "container \<Rightarrow> nat option" where
  "size_of c = (case c of LiveSet members \<Rightarrow> Some (length members) | PlainData p \<Rightarrow> None)"

text \<open>
  \<open>pageInteractions && pageInteractions.size >= required\<close>: \<open>undefined\<close> (here \<open>None\<close>)
  when the map has nothing for the page, and the comparison otherwise.
\<close>

definition isPageCompleted :: "app \<Rightarrow> string \<Rightarrow> bool option" where
  "isPageCompleted a pageId =
     (case completedInteractions a pageId of
        None \<Rightarrow> None
      | Some pageInteractions \<Rightarrow>
          Some (case (size_of pageInteractions, required pageId) of
                  (Some n, Number r) \<Rightarrow> r \<le> n
                | _ \<Rightarrow> False))"

section \<open>PageManager\<close>

definition initializePages :: "app \<Rightarrow> app" where
  "initializePages a =
     a\<lparr>pages :=
         foldl (\<lambda>m (pageId, page_title). map_set m pageId page_title) (pages a)
           [(''landing'', ''Welcome''), (''menu'', ''Main Menu''),
            (''gallery'', ''Photo Gallery''), (''reasons'', ''Amazing You''),
            (''wishes'', ''Birthday Wishes''), (''games'', ''Play Together'')]\<rparr>"

text \<open>
  The constructor. The fields \<open>transitionDuration\<close>, \<open>prevCompletionPercentage\<close> and
  \<open>hasShownCompletion\<close> are written here and read nowhere else in the two classes; the
  model leaves them out. When \<open>new ProgressTracker()\<close> throws, the constructor stops there.
\<close>

definition new_PageManager :: "app \<Rightarrow> (error + unit) \<times> app" where
  "new_PageManager a =
     and_then (new_ProgressTracker (a\<lparr>currentPage := ''landing'', pageHistory := [], pages := []\<rparr>))
       (\<lambda>_ a'. (Inr (), initializePages a'))"

definition achievements_table :: "(string \<times> achievement_data) list" where
  "achievements_table =
     [(''first-visit-gallery'',
       \<lparr>title = Some ''Memory Keeper'', description = Some ''Visited the photo gallery'',
        icon = Some [CHR 0xF0, CHR 0x9F, CHR 0x93, CHR 0xB8]\<rparr>),
      (''first-visit-reasons'',
       \<lparr>title = Some ''Heart Warmer'',
        description = Some (''Discovered why you'' @ [CHR 0x27] @ ''re amazing''),
        icon = Some [CHR 0xF0, CHR 0x9F, CHR 0x8C, CHR 0x9F]\<rparr>),
      (''first-visit-wishes'',
       \<lparr>title = Some ''Wish Collector'', description = Some ''Read birthday wishes'',
        icon = Some [CHR 0xF0, CHR 0x9F, CHR 0x92, CHR 0x95]\<rparr>),
      (''first-visit-games'',
       \<lparr>title = Some ''Fun Seeker'', description = Some ''Started playing games'',
        icon = Some [CHR 0xF0, CHR 0x9F, CHR 0x8E, CHR 0xAE]\<rparr>),
      (''surprise-message'',
       \<lparr>title = Some ''Secret Keeper'', description = Some ''Unlocked a secret message'',
        icon = Some [CHR 0xF0, CHR 0x9F, CHR 0x92, CHR 0x8C]\<rparr>),
      (''surprise-photo'',
       \<lparr>title = Some ''Photo Detective'', description = Some ''Found the hidden photo'',
        icon = Some [CHR 0xF0, CHR 0x9F, CHR 0x93, CHR 0xB7]\<rparr>),
      (''surprise-wish'',
       \<lparr>title = Some ''Wish Finder'', description = Some ''Discovered the special wish'',
        icon = Some [CHR 0xF0, CHR 0x9F, CHR 0x8C, CHR 0x9F]\<rparr>),
      (''explorer'',
       \<lparr>title = Some ''Complete Explorer'', description = Some ''Visited all sections!'',
        icon = Some [CHR 0xF0, CHR 0x9F, CHR 0x8F, CHR 0x86]\<rparr>)]"

definition generic_achievement :: achievement_data where
  "generic_achievement =
     \<lparr>title = Some ''Achievement Unlocked'', description = Some ''You did something special!'',
      icon = Some [CHR 0xE2, CHR 0x9C, CHR 0xA8]\<rparr>"

text \<open>
  \<open>achievements[achievementId] || {...}\<close>: every entry of the table and every inherited
  member is truthy, so the generic data is returned for a missing name only.
\<close>

definition getAchievementData :: "string \<Rightarrow> achievement_data" where
  "getAchievementData achievementId =
     (case get_property achievements_table achievementId of
        Own achievementData \<Rightarrow> achievementData
      | Inherited \<Rightarrow> \<lparr>title = None, description = None, icon = None\<rparr>
      | Missing \<Rightarrow> generic_achievement)"

definition showAchievementNotification :: "achievement_data \<Rightarrow> app \<Rightarrow> app" where
  "showAchievementNotification achievementData a =
     a\<lparr>notifications := notifications a @ [achievementData]\<rparr>"

definition unlockAchievement :: "string \<Rightarrow> app \<Rightarrow> (error + unit) \<times> app" where
  "unlockAchievement achievementId a =
     (let achievementData = getAchievementData achievementId
      in if \<not> map_has (achievements a) achievementId
         then let (stamp, a1) = new_Date_toISOString a;
                  a2 = a1\<lparr>achievements :=
                            map_set (achievements a1) achievementId
                              \<lparr>title = title achievementData,
                               description = description achievementData,
                               icon = icon achievementData,
                               ach_id = achievementId,
                               unlockedAt = stamp\<rparr>\<rparr>
              in and_then (saveProgress a2)
                   (\<lambda>_ a3. (Inr (), showAchievementNotification achievementData a3))
         else (Inr (), a))"

text \<open>
  \<open>updateMenuProgress\<close> and \<open>updateBackButton\<close> only read the state and write the
  document, so they do not appear in \<open>trackProgress\<close> and \<open>navigateTo\<close>.
\<close>

definition trackProgress :: "string \<Rightarrow> app \<Rightarrow> (error + unit) \<times> app" where
  "trackProgress pageId a =
     and_then (markPageVisited pageId a)
       (\<lambda>isFirstVisit a1.
          if isFirstVisit \<and> pageId \<noteq> ''landing'' \<and> pageId \<noteq> ''menu''
          then unlockAchievement (''first-visit-'' @ pageId) a1
          else (Inr (), a1))"

definition executeTransition :: "string \<Rightarrow> string \<Rightarrow> string \<Rightarrow> app \<Rightarrow> app" where
  "executeTransition fromPage toPage transitionType a =
     a\<lparr>transitions := transitions a @ [(fromPage, toPage, transitionType)]\<rparr>"

text \<open>
  \<open>navigateTo\<close> as the class defines it. The script later replaces
  \<open>pageManager.navigateTo\<close> twice by a function that first calls the one it replaces
  with the same arguments and then only starts timers of the presentation, so the function
  installed at any time changes this state exactly as this one does.
\<close>

definition navigateTo :: "string \<Rightarrow> string \<Rightarrow> app \<Rightarrow> (error + unit) \<times> app" where
  "navigateTo pageId transitionType a =
     (if \<not> map_has (pages a) pageId
      then (Inr (), a\<lparr>console := console a @ [''Page '' @ pageId @ '' not found'']\<rparr>)
      else
        let a1 = (if currentPage a \<noteq> pageId
                  then a\<lparr>pageHistory := pageHistory a @ [currentPage a]\<rparr>
                  else a);
            a2 = (if elements a1 (currentPage a1) \<and> elements a1 pageId
                  then executeTransition (currentPage a1) pageId transitionType a1
                  else a1);
            a3 = a2\<lparr>currentPage := pageId\<rparr>
        in trackProgress pageId a3)"

definition goBack :: "app \<Rightarrow> (error + unit) \<times> app" where
  "goBack a =
     (if length (pageHistory a) > 0
      then let previousPage = last (pageHistory a);
               a1 = a\<lparr>pageHistory := butlast (pageHistory a)\<rparr>
           in navigateTo previousPage ''slideBack'' a1
      else (Inr (), a))"

text \<open>The body of the key handler of \<open>setupKonami\<close>, once the key sequence has matched.\<close>

definition konami_matched :: "app \<Rightarrow> (error + unit) \<times> app" where
  "konami_matched a =
     and_then (unlockAchievement ''secret-explorer'' a)
       (\<lambda>_ a1. navigateTo ''secret'' ''slide'' a1)"

section \<open>Sessions\<close>

text \<open>
  A browser that has never stored anything, in which every page has its element and the
  clock stands still, and the state the script reaches when it is loaded there.
\<close>

definition empty_browser :: app where
  "empty_browser = \<lparr>visitedPages = [], completedInteractions = Map.empty, unlockedSecrets = [],
     achievements = [], collectibles = Map.empty, currentPage = [], pageHistory = [],
     pages = [], localStorage = NoItem, storageFull = False,
     clock = (\<lambda>n. ''2025-06-01T12:00:00.000Z''), ticks = 0, elements = (\<lambda>p. True),
     console = [], transitions = [], notifications = []\<rparr>"

definition fresh_app :: app where
  "fresh_app = snd (new_PageManager empty_browser)"

text \<open>
  What can happen after loading: the calls the page's handlers make on \<open>pageManager\<close> and
  on \<open>pageManager.progressTracker\<close>, and the storage becoming full or free again. A handler
  that throws ends there; the state it had reached is the state the next event finds.
\<close>

datatype event =
    NavigateTo string string
  | GoBack
  | KonamiCode
  | UnlockAchievement string
  | MarkPageVisited string
  | MarkInteractionComplete string string
  | UnlockSecret string
  | AddCollectible string string
  | StorageFull bool

fun handle :: "event \<Rightarrow> app \<Rightarrow> app" where
  "handle (NavigateTo pageId transitionType) a = snd (navigateTo pageId transitionType a)"
| "handle GoBack a = snd (goBack a)"
| "handle KonamiCode a = snd (konami_matched a)"
| "handle (UnlockAchievement achievementId) a = snd (unlockAchievement achievementId a)"
| "handle (MarkPageVisited pageId) a = snd (markPageVisited pageId a)"
| "handle (MarkInteractionComplete pageId interactionId) a =
     snd (markInteractionComplete pageId interactionId a)"
| "handle (UnlockSecret secretId) a = snd (unlockSecret secretId a)"
| "handle (AddCollectible pageId collectibleId) a = snd (addCollectible pageId collectibleId a)"
| "handle (StorageFull b) a = a\<lparr>storageFull := b\<rparr>"

definition run :: "event list \<Rightarrow> app \<Rightarrow> app" where
  "run events a = foldl (\<lambda>s e. handle e s) a events"

text \<open>
  A state with something in every container of the tracker: a visited page, a completed
  interaction, an unlocked secret, an achievement and a collectible.
\<close>

definition candle_blower_record :: achievement where
  "candle_blower_record =
     \<lparr>title = Some ''Achievement Unlocked'', description = Some ''You did something special!'',
      icon = Some [CHR 0xE2, CHR 0x9C, CHR 0xA8], ach_id = ''candle-blower'',
      unlockedAt = ''2025-06-01T12:00:00.000Z''\<rparr>"

definition progress_everywhere :: app where
  "progress_everywhere =
     fresh_app\<lparr>visitedPages := [''gallery''],
               completedInteractions := [''gallery'' \<mapsto> LiveSet [''photo-1'']],
               unlockedSecrets := [''konami''],
               achievements := [(''candle-blower'', candle_blower_record)],
               collectibles := [''wishes'' \<mapsto> LiveSet [''gem-1'']]\<rparr>"

text \<open>
  What a method of the tracker never touches: the navigation, the registered pages, the
  presentation's console and transitions, and the browser's behaviour.
\<close>

definition same_navigation :: "app \<Rightarrow> app \<Rightarrow> bool" where
  "same_navigation a a' =
     (currentPage a' = currentPage a \<and> pageHistory a' = pageHistory a \<and> pages a' = pages a \<and>
      console a' = console a \<and> transitions a' = transitions a \<and> elements a' = elements a \<and>
      storageFull a' = storageFull a \<and> clock a' = clock a)"

text \<open>
  One-way progress from a state to a later one: no container of the tracker has lost a
  member or become shorter, and no achievement record has been removed or altered. Plain
  data in a per-page map has no members to compare; it counts as kept when it is unchanged.
\<close>

definition container_grows :: "container option \<Rightarrow> container option \<Rightarrow> bool" where
  "container_grows c c' =
     (case c of
        None \<Rightarrow> True
      | Some (LiveSet xs) \<Rightarrow>
          (\<exists>ys. c' = Some (LiveSet ys) \<and> set xs \<subseteq> set ys \<and> length xs \<le> length ys)
      | Some (PlainData d) \<Rightarrow> c' = Some (PlainData d))"

definition progress_grows :: "app \<Rightarrow> app \<Rightarrow> bool" where
  "progress_grows a a' =
     (set (visitedPages a) \<subseteq> set (visitedPages a') \<and>
      length (visitedPages a) \<le> length (visitedPages a') \<and>
      set (unlockedSecrets a) \<subseteq> set (unlockedSecrets a') \<and>
      length (unlockedSecrets a) \<le> length (unlockedSecrets a') \<and>
      (\<forall>k r. map_of (achievements a) k = Some r \<longrightarrow> map_of (achievements a') k = Some r) \<and>
      length (achievements a) \<le> length (achievements a') \<and>
      (\<forall>p. container_grows (completedInteractions a p) (completedInteractions a' p)) \<and>
      (\<forall>p. container_grows (collectibles a p) (collectibles a' p)))"

text \<open>
  What the tracker's containers are by construction: a \<open>Set\<close> has no member twice, a
  \<open>Map\<close> has no key twice, and every achievement is stored under its own id.
\<close>

definition tracker_ok :: "app \<Rightarrow> bool" where
  "tracker_ok a =
     (distinct (visitedPages a) \<and> distinct (unlockedSecrets a) \<and>
      distinct (map fst (achievements a)) \<and>
      (\<forall>entry \<in> set (achievements a). ach_id (snd entry) = fst entry) \<and>
      (\<forall>p xs. completedInteractions a p = Some (LiveSet xs) \<longrightarrow> distinct xs) \<and>
      (\<forall>p xs. collectibles a p = Some (LiveSet xs) \<longrightarrow> distinct xs))"

section \<open>Basic facts\<close>

lemma saveProgress_eq:
  "saveProgress a =
     (if storageFull a then (Inl QuotaExceededError, a\<lparr>ticks := Suc (ticks a)\<rparr>)
      else (Inr (), a\<lparr>ticks := Suc (ticks a),
                      localStorage := Document (progress_json a (clock a (ticks a)))\<rparr>))"
  by (simp add: saveProgress_def new_Date_toISOString_def progress_json_def)

lemma fresh_app_eq:
  "fresh_app = empty_browser\<lparr>currentPage := ''landing'',
      pages := [(''landing'', ''Welcome''), (''menu'', ''Main Menu''),
            (''gallery'', ''Photo Gallery''), (''reasons'', ''Amazing You''),
            (''wishes'', ''Birthday Wishes''), (''games'', ''Play Together'')]\<rparr>"
  by (simp add: fresh_app_def new_PageManager_def new_ProgressTracker_def loadProgress_def
      and_then_def initializePages_def empty_browser_def)

subsection \<open>pages\<close>

lemma pages_saveProgress [simp]: "pages (snd (saveProgress a)) = pages a"
  by (simp add: saveProgress_eq)

lemma pages_and_then:
  assumes "pages (snd r) = P" "\<And>x s. pages s = P \<Longrightarrow> pages (snd (f x s)) = P"
  shows "pages (snd (and_then r f)) = P"
  using assms by (cases r) (auto simp: and_then_def split: sum.splits)

lemma pages_markPageVisited [simp]: "pages (snd (markPageVisited p a)) = pages a"
  by (simp add: markPageVisited_def pages_and_then)

lemma pages_unlockSecret [simp]: "pages (snd (unlockSecret p a)) = pages a"
  by (simp add: unlockSecret_def pages_and_then)

lemma pages_markInteractionComplete [simp]:
  "pages (snd (markInteractionComplete p i a)) = pages a"
  by (auto simp: markInteractionComplete_def Let_def pages_and_then
      split: option.splits container.splits)

lemma pages_addCollectible [simp]: "pages (snd (addCollectible p i a)) = pages a"
  by (auto simp: addCollectible_def Let_def pages_and_then
      split: option.splits container.splits)

lemma pages_unlockAchievement [simp]: "pages (snd (unlockAchievement i a)) = pages a"
  by (auto simp: unlockAchievement_def Let_def new_Date_toISOString_def
      showAchievementNotification_def intro!: pages_and_then)

lemma pages_trackProgress [simp]: "pages (snd (trackProgress p a)) = pages a"
  unfolding trackProgress_def by (rule pages_and_then) auto

lemma pages_navigateTo [simp]: "pages (snd (navigateTo p t a)) = pages a"
  by (simp add: navigateTo_def Let_def executeTransition_def)

lemma pages_goBack [simp]: "pages (snd (goBack a)) = pages a"
  by (simp add: goBack_def Let_def)

lemma pages_konami_matched [simp]: "pages (snd (konami_matched a)) = pages a"
  unfolding konami_matched_def by (rule pages_and_then) auto

lemma pages_handle [simp]: "pages (handle e a) = pages a"
  by (cases e) simp_all

lemma pages_run [simp]: "pages (run events a) = pages a"
  unfolding run_def by (induction events arbitrary: a) simp_all

lemma pages_new_PageManager:
  assumes "new_PageManager b = (Inr (), a)"
  shows "pages a = [(''landing'', ''Welcome''), (''menu'', ''Main Menu''),
            (''gallery'', ''Photo Gallery''), (''reasons'', ''Amazing You''),
            (''wishes'', ''Birthday Wishes''), (''games'', ''Play Together'')]"
  using assms
  by (auto simp: new_PageManager_def new_ProgressTracker_def loadProgress_def and_then_def
      initializePages_def split: stored.splits)


lemma map_set_absent: "k \<notin> set (map fst m) \<Longrightarrow> map_set m k v = m @ [(k, v)]"
  by (induction m) auto

lemma map_fst_map_set:
  "map fst (map_set m k v) = (if k \<in> set (map fst m) then map fst m else map fst m @ [k])"
proof (induction m)
  case Nil
  show ?case by simp
next
  case (Cons p m)
  obtain k' v' where p: "p = (k', v')" by (cases p)
  show ?case using Cons by (simp add: p)
qed

lemma map_of_map_set: "map_of (map_set m k v) = (map_of m)(k \<mapsto> v)"
  by (induction m) auto

lemma map_has_map_set [simp]: "map_has (map_set m k v) k"
  by (simp add: map_has_def map_fst_map_set)

lemma currentPage_saveProgress [simp]: "currentPage (snd (saveProgress a)) = currentPage a"
  and pageHistory_saveProgress [simp]: "pageHistory (snd (saveProgress a)) = pageHistory a"
  and console_saveProgress [simp]: "console (snd (saveProgress a)) = console a"
  by (simp_all add: saveProgress_eq)

lemma unlockAchievement_frame:
  "currentPage (snd (unlockAchievement i a)) = currentPage a \<and>
   pageHistory (snd (unlockAchievement i a)) = pageHistory a \<and>
   console (snd (unlockAchievement i a)) = console a"
  by (simp add: unlockAchievement_def Let_def new_Date_toISOString_def saveProgress_eq
      and_then_def showAchievementNotification_def)

lemma unlockAchievement_has:
  "map_has (achievements (snd (unlockAchievement i a))) i"
  by (simp add: unlockAchievement_def Let_def new_Date_toISOString_def saveProgress_eq
      and_then_def showAchievementNotification_def) 

lemma navigateTo_not_found:
  assumes "\<not> map_has (pages a) pageId"
  shows "navigateTo pageId transitionType a =
           (Inr (), a\<lparr>console := console a @ [''Page '' @ pageId @ '' not found'']\<rparr>)"
  using assms by (simp add: navigateTo_def)

lemma konami_matched_frame:
  assumes "\<not> map_has (pages a) ''secret''"
  shows "map_has (achievements (snd (konami_matched a))) ''secret-explorer'' \<and>
         currentPage (snd (konami_matched a)) = currentPage a \<and>
         pageHistory (snd (konami_matched a)) = pageHistory a"
proof -
  obtain r s where u: "unlockAchievement ''secret-explorer'' a = (r, s)"
    by (cases "unlockAchievement ''secret-explorer'' a")
  have s: "pages s = pages a" "currentPage s = currentPage a" "pageHistory s = pageHistory a"
    "map_has (achievements s) ''secret-explorer''"
    using pages_unlockAchievement [of "''secret-explorer''" a]
      unlockAchievement_frame [of "''secret-explorer''" a]
      unlockAchievement_has [of "''secret-explorer''" a] u by simp_all
  have n: "navigateTo ''secret'' ''slide'' s =
      (Inr (), s\<lparr>console := console s @ [''Page '' @ ''secret'' @ '' not found'']\<rparr>)"
    using assms s(1) by (intro navigateTo_not_found) simp
  show ?thesis
  proof (cases r)
    case (Inl e)
    then show ?thesis using u s by (simp add: konami_matched_def and_then_def)
  next
    case (Inr x)
    then show ?thesis using u s n by (simp add: konami_matched_def and_then_def)
  qed
qed

subsection \<open>What each method leaves alone\<close>

lemma same_navigation_refl [simp]: "same_navigation a a"
  by (simp add: same_navigation_def)

lemma same_navigation_trans:
  "same_navigation a b \<Longrightarrow> same_navigation b c \<Longrightarrow> same_navigation a c"
  by (simp add: same_navigation_def)

lemma same_navigation_saveProgress: "same_navigation a (snd (saveProgress a))"
  by (simp add: same_navigation_def saveProgress_eq)

lemma same_navigation_markPageVisited: "same_navigation a (snd (markPageVisited p a))"
  by (simp add: same_navigation_def markPageVisited_def and_then_def saveProgress_eq)

lemma same_navigation_unlockAchievement: "same_navigation a (snd (unlockAchievement i a))"
  by (simp add: same_navigation_def unlockAchievement_def Let_def new_Date_toISOString_def
      saveProgress_eq and_then_def showAchievementNotification_def)

lemma same_navigation_trackProgress: "same_navigation a (snd (trackProgress p a))"
proof -
  obtain r s where m: "markPageVisited p a = (r, s)" by (cases "markPageVisited p a")
  have s: "same_navigation a s" using same_navigation_markPageVisited [of a p] m by simp
  show ?thesis
  proof (cases r)
    case (Inl e)
    then show ?thesis using m s by (simp add: trackProgress_def and_then_def)
  next
    case (Inr first)
    then show ?thesis
      using m s same_navigation_trans [OF s same_navigation_unlockAchievement]
      by (simp add: trackProgress_def and_then_def)
  qed
qed

lemma navigateTo_registered:
  assumes "map_has (pages a) pageId"
  shows "currentPage (snd (navigateTo pageId t a)) = pageId \<and>
         pageHistory (snd (navigateTo pageId t a)) =
           (if currentPage a \<noteq> pageId then pageHistory a @ [currentPage a] else pageHistory a)"
proof -
  define a3 where "a3 =
     (let a1 = (if currentPage a \<noteq> pageId
                  then a\<lparr>pageHistory := pageHistory a @ [currentPage a]\<rparr>
                  else a);
            a2 = (if elements a1 (currentPage a1) \<and> elements a1 pageId
                  then executeTransition (currentPage a1) pageId t a1
                  else a1)
      in a2\<lparr>currentPage := pageId\<rparr>)"
  have n: "navigateTo pageId t a = trackProgress pageId a3"
    using assms by (simp add: navigateTo_def a3_def Let_def)
  have 3: "currentPage a3 = pageId"
    "pageHistory a3 =
       (if currentPage a \<noteq> pageId then pageHistory a @ [currentPage a] else pageHistory a)"
    by (simp_all add: a3_def Let_def executeTransition_def)
  show ?thesis
    using same_navigation_trackProgress [of a3 pageId] 3
    by (simp add: n same_navigation_def)
qed

lemma goBack_cases:
  "goBack a =
     (if pageHistory a = [] then (Inr (), a)
      else navigateTo (last (pageHistory a)) ''slideBack''
             (a\<lparr>pageHistory := butlast (pageHistory a)\<rparr>))"
  by (simp add: goBack_def Let_def)

lemma goBack_registered:
  assumes "pageHistory a \<noteq> []" "map_has (pages a) (last (pageHistory a))"
  shows "currentPage (snd (goBack a)) = last (pageHistory a) \<and>
         pageHistory (snd (goBack a)) =
           (if currentPage a \<noteq> last (pageHistory a)
            then butlast (pageHistory a) @ [currentPage a] else butlast (pageHistory a))"
  using assms navigateTo_registered [of
      "a\<lparr>pageHistory := butlast (pageHistory a)\<rparr>" "last (pageHistory a)" "''slideBack''"]
  by (simp add: goBack_cases)

lemma map_has_pages_fresh_app:
  "map_has (pages fresh_app) p \<longleftrightarrow>
     p \<in> {''landing'', ''menu'', ''gallery'', ''reasons'', ''wishes'', ''games''}"
  by (auto simp: fresh_app_eq map_has_def)

lemma length_filter_mem:
  assumes "distinct xs"
  shows "length (filter (\<lambda>x. x \<in> A) xs) = card (set xs \<inter> A)"
proof -
  have "{x. x \<in> A} \<inter> set xs = set xs \<inter> A" by auto
  then show ?thesis using distinct_length_filter [OF assms, of "\<lambda>x. x \<in> A"] by simp
qed

lemma set_validPages:
  "set validPages = {''gallery'', ''reasons'', ''wishes'', ''games''}"
  by (auto simp: validPages_def new_Set_def set_add_def set_has_def)

lemma getCompletionPercentage_eq:
  "getCompletionPercentage a =
     25 * int (length (filter (\<lambda>page. page \<in> set validPages) (visitedPages a)))"
proof -
  have "round ((rat_of_nat n / 4) * 100) = 25 * int n" for n
  proof -
    have "(rat_of_nat n / 4) * 100 = of_int (25 * int n)" by simp
    then show ?thesis by (simp only: round_of_int)
  qed
  then show ?thesis by (simp add: getCompletionPercentage_def set_has_def)
qed

subsection \<open>The methods of the tracker, case by case\<close>

lemma markPageVisited_present:
  assumes "pageId \<in> set (visitedPages a)"
  shows "markPageVisited pageId a = (Inr False, a)"
  using assms by (simp add: markPageVisited_def set_has_def)

lemma markPageVisited_absent:
  assumes "pageId \<notin> set (visitedPages a)"
  shows "markPageVisited pageId a =
           (if storageFull a
            then (Inl QuotaExceededError,
                  a\<lparr>visitedPages := visitedPages a @ [pageId], ticks := Suc (ticks a)\<rparr>)
            else (Inr True,
                  a\<lparr>visitedPages := visitedPages a @ [pageId], ticks := Suc (ticks a),
                    localStorage := Document
                      (progress_json (a\<lparr>visitedPages := visitedPages a @ [pageId]\<rparr>)
                         (clock a (ticks a)))\<rparr>))"
  using assms
  by (simp add: markPageVisited_def set_has_def set_add_def saveProgress_eq and_then_def)

lemma visitedPages_markPageVisited:
  "visitedPages (snd (markPageVisited pageId a)) = set_add (visitedPages a) pageId"
  by (cases "pageId \<in> set (visitedPages a)")
     (simp_all add: markPageVisited_present markPageVisited_absent set_add_def set_has_def)

lemma progress_json_frame [simp]:
  "progress_json (a\<lparr>ticks := n\<rparr>) = progress_json a"
  "progress_json (a\<lparr>localStorage := d\<rparr>) = progress_json a"
  by (simp_all add: progress_json_def fun_eq_iff)

lemma count_list_append_one:
  "x \<notin> set xs \<Longrightarrow> count_list (xs @ [x]) x = 1"
  by (simp add: count_list_0_iff)

lemma count_list_distinct:
  "distinct xs \<Longrightarrow> x \<in> set xs \<Longrightarrow> count_list xs x = 1"
  by (induction xs) (auto simp: count_list_0_iff)

lemma markInteractionComplete_cases:
  "markInteractionComplete p i a =
     (case completedInteractions a p of
        None \<Rightarrow>
          and_then (saveProgress
                      (a\<lparr>completedInteractions := (completedInteractions a)(p \<mapsto> LiveSet [i])\<rparr>))
            (\<lambda>_ a'. (Inr True, a'))
      | Some (LiveSet xs) \<Rightarrow>
          if i \<in> set xs then (Inr False, a)
          else and_then (saveProgress
                 (a\<lparr>completedInteractions := (completedInteractions a)(p \<mapsto> LiveSet (xs @ [i]))\<rparr>))
                 (\<lambda>_ a'. (Inr True, a'))
      | Some (PlainData d) \<Rightarrow> (Inl TypeError, a))"
  by (simp add: markInteractionComplete_def Let_def set_has_def set_add_def
      split: option.splits container.splits)

lemma addCollectible_cases:
  "addCollectible p i a =
     (case collectibles a p of
        None \<Rightarrow>
          and_then (saveProgress (a\<lparr>collectibles := (collectibles a)(p \<mapsto> LiveSet [i])\<rparr>))
            (\<lambda>_ a'. (Inr True, a'))
      | Some (LiveSet xs) \<Rightarrow>
          if i \<in> set xs then (Inr False, a)
          else and_then (saveProgress
                 (a\<lparr>collectibles := (collectibles a)(p \<mapsto> LiveSet (xs @ [i]))\<rparr>))
                 (\<lambda>_ a'. (Inr True, a'))
      | Some (PlainData d) \<Rightarrow> (Inl TypeError, a))"
  by (simp add: addCollectible_def Let_def set_has_def set_add_def
      split: option.splits container.splits)

lemma new_Set_distinct: "distinct xs \<Longrightarrow> new_Set xs = xs"
proof -
  have "distinct (acc @ xs) \<Longrightarrow> foldl set_add acc xs = acc @ xs" for acc
    by (induction xs arbitrary: acc) (simp_all add: set_add_def set_has_def)
  from this [of "[]"] show "distinct xs \<Longrightarrow> new_Set xs = xs"
    by (simp add: new_Set_def)
qed

lemma new_Map_distinct:
  "distinct (map fst es) \<Longrightarrow> new_Map es = es"
proof -
  have "distinct (map fst (acc @ es)) \<Longrightarrow>
          foldl (\<lambda>m (k, v). map_set m k v) acc es = acc @ es" for acc
  proof (induction es arbitrary: acc)
    case Nil
    then show ?case by simp
  next
    case (Cons e es)
    obtain k v where e: "e = (k, v)" by (cases e)
    have "map_set acc k v = acc @ [(k, v)]"
      using Cons.prems by (intro map_set_absent) (simp add: e)
    then show ?case using Cons.IH [of "acc @ [e]"] Cons.prems by (simp add: e)
  qed
  from this [of "[]"] show "distinct (map fst es) \<Longrightarrow> new_Map es = es"
    by (simp add: new_Map_def)
qed

text \<open>Saving and loading again, for any state.\<close>

lemma save_then_load:
  assumes "\<not> storageFull a"
  shows "new_ProgressTracker (snd (saveProgress a)) =
           (Inr (),
            (snd (saveProgress a))
              \<lparr>visitedPages := new_Set (visitedPages a),
               completedInteractions := map_option (PlainData \<circ> to_json) \<circ> completedInteractions a,
               unlockedSecrets := new_Set (unlockedSecrets a),
               achievements := new_Map (map (\<lambda>r. (ach_id r, r)) (map snd (achievements a))),
               collectibles := map_option (PlainData \<circ> to_json) \<circ> collectibles a\<rparr>)"
  using assms
  by (simp add: saveProgress_eq new_ProgressTracker_def loadProgress_def progress_json_def
      fun_eq_iff option.map_comp comp_def)

lemma completedInteractions_fresh_app [simp]: "completedInteractions fresh_app = Map.empty"
  and storageFull_fresh_app [simp]: "\<not> storageFull fresh_app"
  and localStorage_fresh_app [simp]: "localStorage fresh_app = NoItem"
  and achievements_fresh_app [simp]: "achievements fresh_app = []"
  and notifications_fresh_app [simp]: "notifications fresh_app = []"
  by (simp_all add: fresh_app_eq empty_browser_def)

lemma markInteractionComplete_plain:
  assumes "completedInteractions a p = Some (PlainData d)"
  shows "markInteractionComplete p i a = (Inl TypeError, a)"
  using assms by (simp add: markInteractionComplete_cases)

lemma addCollectible_plain:
  assumes "collectibles a p = Some (PlainData d)"
  shows "addCollectible p i a = (Inl TypeError, a)"
  using assms by (simp add: addCollectible_cases)

lemma unlockAchievement_present:
  assumes "map_has (achievements a) i"
  shows "unlockAchievement i a = (Inr (), a)"
  using assms by (simp add: unlockAchievement_def)

lemma unlockAchievement_absent:
  assumes "\<not> map_has (achievements a) i"
  shows "unlockAchievement i a =
     (let d = getAchievementData i;
          a2 = a\<lparr>achievements := achievements a @
                   [(i, \<lparr>title = title d, description = description d, icon = icon d,
                         ach_id = i, unlockedAt = clock a (ticks a)\<rparr>)],
                 ticks := Suc (Suc (ticks a))\<rparr>
      in if storageFull a then (Inl QuotaExceededError, a2)
         else (Inr (), a2\<lparr>localStorage := Document (progress_json a2 (clock a (Suc (ticks a)))),
                          notifications := notifications a @ [d]\<rparr>))"
proof -
  have "map_set (achievements a) i v = achievements a @ [(i, v)]" for v
    using assms by (intro map_set_absent) (simp add: map_has_def)
  then show ?thesis
    using assms
    by (simp add: unlockAchievement_def Let_def new_Date_toISOString_def saveProgress_eq
        and_then_def showAchievementNotification_def progress_json_def)
qed

lemma map_has_after_unlockAchievement:
  "map_has (achievements (snd (unlockAchievement i a))) i"
  by (cases "map_has (achievements a) i")
     (simp_all add: unlockAchievement_present unlockAchievement_absent Let_def map_has_def)

lemma filter_key_distinct:
  assumes "distinct (map fst m)" "k \<in> set (map fst m)"
  shows "length (filter (\<lambda>entry. fst entry = k) m) = 1"
  using assms
proof (induction m)
  case Nil
  then show ?case by simp
next
  case (Cons e m)
  show ?case
  proof (cases "fst e = k")
    case True
    then have "k \<notin> fst ` set m" using Cons.prems by auto
    then have "filter (\<lambda>entry. fst entry = k) m = []"
      by (auto simp: filter_empty_conv)
    then show ?thesis using True by simp
  next
    case False
    then show ?thesis using Cons by auto
  qed
qed

lemma distinct_keys_unlockAchievement:
  assumes "distinct (map fst (achievements a))"
  shows "distinct (map fst (achievements (snd (unlockAchievement i a))))"
  using assms
  by (cases "map_has (achievements a) i")
     (simp_all add: unlockAchievement_present unlockAchievement_absent Let_def map_has_def)

subsection \<open>Progress within a session\<close>

lemma container_grows_refl [simp]: "container_grows c c"
  by (simp add: container_grows_def split: option.splits container.splits)

lemma container_grows_trans:
  "container_grows c c' \<Longrightarrow> container_grows c' c'' \<Longrightarrow> container_grows c c''"
  by (fastforce simp: container_grows_def split: option.splits container.splits)

lemma progress_grows_refl [simp]: "progress_grows a a"
  by (simp add: progress_grows_def)

lemma progress_grows_trans:
  assumes "progress_grows a b" "progress_grows b c"
  shows "progress_grows a c"
proof -
  have "container_grows (completedInteractions a p) (completedInteractions c p)" for p
    using assms container_grows_trans unfolding progress_grows_def by blast
  moreover have "container_grows (collectibles a p) (collectibles c p)" for p
    using assms container_grows_trans unfolding progress_grows_def by blast
  moreover have "map_of (achievements a) k = Some r \<Longrightarrow> map_of (achievements c) k = Some r"
    for k r using assms unfolding progress_grows_def by blast
  ultimately show ?thesis
    using assms unfolding progress_grows_def
    by (meson order_trans subset_trans)
qed

lemma progress_grows_same:
  assumes "visitedPages a' = visitedPages a" "completedInteractions a' = completedInteractions a"
    "unlockedSecrets a' = unlockedSecrets a" "achievements a' = achievements a"
    "collectibles a' = collectibles a"
  shows "progress_grows a a'"
  using assms by (simp add: progress_grows_def)

lemma snd_and_then_const [simp]: "snd (and_then r (\<lambda>x a'. (c x, a'))) = snd r"
  by (cases r) (auto simp: and_then_def split: sum.splits)

lemma tracker_saveProgress [simp]:
  "visitedPages (snd (saveProgress a)) = visitedPages a"
  "completedInteractions (snd (saveProgress a)) = completedInteractions a"
  "unlockedSecrets (snd (saveProgress a)) = unlockedSecrets a"
  "achievements (snd (saveProgress a)) = achievements a"
  "collectibles (snd (saveProgress a)) = collectibles a"
  by (simp_all add: saveProgress_eq)

lemma progress_grows_markPageVisited: "progress_grows a (snd (markPageVisited p a))"
  by (auto simp: markPageVisited_def progress_grows_def set_add_def set_has_def)

lemma progress_grows_unlockSecret: "progress_grows a (snd (unlockSecret p a))"
  by (auto simp: unlockSecret_def progress_grows_def set_add_def set_has_def)

lemma progress_grows_markInteractionComplete:
  "progress_grows a (snd (markInteractionComplete p i a))"
  by (auto simp: markInteractionComplete_cases progress_grows_def container_grows_def
      split: option.splits container.splits)

lemma progress_grows_addCollectible:
  "progress_grows a (snd (addCollectible p i a))"
  by (auto simp: addCollectible_cases progress_grows_def container_grows_def
      split: option.splits container.splits)

lemma map_of_append_absent:
  "map_of m k = Some r \<Longrightarrow> map_of (m @ [(i, v)]) k = Some r"
  by (simp add: map_add_Some_iff)

lemma progress_grows_unlockAchievement: "progress_grows a (snd (unlockAchievement i a))"
  by (cases "map_has (achievements a) i")
     (simp_all add: unlockAchievement_present unlockAchievement_absent Let_def
       progress_grows_def map_add_Some_iff)

lemma progress_grows_and_then:
  assumes "progress_grows a (snd r)" "\<And>x s. progress_grows s (snd (f x s))"
  shows "progress_grows a (snd (and_then r f))"
proof (cases r)
  case (Pair outcome s)
  show ?thesis
  proof (cases outcome)
    case (Inl e)
    then show ?thesis using assms(1) Pair by (simp add: and_then_def)
  next
    case (Inr x)
    then show ?thesis
      using progress_grows_trans [OF _ assms(2) [of s x]] assms(1) Pair
      by (simp add: and_then_def)
  qed
qed

lemma progress_grows_trackProgress: "progress_grows a (snd (trackProgress p a))"
  unfolding trackProgress_def
  by (rule progress_grows_and_then)
     (simp_all add: progress_grows_markPageVisited progress_grows_unlockAchievement)

lemma progress_grows_navigateTo: "progress_grows a (snd (navigateTo p t a))"
proof (cases "map_has (pages a) p")
  case False
  then show ?thesis by (simp add: navigateTo_not_found progress_grows_same)
next
  case True
  define a3 where "a3 =
     (let a1 = (if currentPage a \<noteq> p
                  then a\<lparr>pageHistory := pageHistory a @ [currentPage a]\<rparr>
                  else a);
            a2 = (if elements a1 (currentPage a1) \<and> elements a1 p
                  then executeTransition (currentPage a1) p t a1
                  else a1)
      in a2\<lparr>currentPage := p\<rparr>)"
  have n: "navigateTo p t a = trackProgress p a3"
    using True by (simp add: navigateTo_def a3_def Let_def)
  have "progress_grows a a3"
    by (rule progress_grows_same) (simp_all add: a3_def Let_def executeTransition_def)
  then show ?thesis
    unfolding n using progress_grows_trackProgress progress_grows_trans by blast
qed

lemma progress_grows_goBack: "progress_grows a (snd (goBack a))"
proof (cases "pageHistory a = []")
  case True
  then show ?thesis by (simp add: goBack_cases)
next
  case False
  have "progress_grows a (a\<lparr>pageHistory := butlast (pageHistory a)\<rparr>)"
    by (rule progress_grows_same) simp_all
  then show ?thesis
    using False progress_grows_navigateTo progress_grows_trans
    by (fastforce simp: goBack_cases)
qed

lemma progress_grows_konami_matched: "progress_grows a (snd (konami_matched a))"
  unfolding konami_matched_def
  by (rule progress_grows_and_then)
     (simp_all add: progress_grows_unlockAchievement progress_grows_navigateTo)

lemma progress_grows_handle: "progress_grows a (handle e a)"
  by (cases e)
     (simp_all add: progress_grows_navigateTo progress_grows_goBack progress_grows_konami_matched
       progress_grows_unlockAchievement progress_grows_markPageVisited
       progress_grows_markInteractionComplete progress_grows_unlockSecret
       progress_grows_addCollectible progress_grows_same)

lemma progress_grows_run: "progress_grows a (run events a)"
proof (induction events arbitrary: a)
  case Nil
  show ?case by (simp add: run_def)
next
  case (Cons e events)
  have "run (e # events) a = run events (handle e a)" by (simp add: run_def)
  then show ?case
    using progress_grows_trans [OF progress_grows_handle Cons] by simp
qed


subsection \<open>Sets stay sets\<close>

lemma distinct_set_add: "distinct xs \<Longrightarrow> distinct (set_add xs x)"
  by (simp add: set_add_def set_has_def)

lemma distinct_new_Set: "distinct (new_Set xs)"
proof -
  have "distinct acc \<Longrightarrow> distinct (foldl set_add acc xs)" for acc
    by (induction xs arbitrary: acc) (simp_all add: distinct_set_add)
  then show ?thesis by (simp add: new_Set_def)
qed

lemma keyed_map_set:
  fixes m :: "(string \<times> achievement) list"
  assumes "\<forall>entry \<in> set m. ach_id (snd entry) = fst entry" "ach_id r = k"
  shows "\<forall>entry \<in> set (map_set m k r). ach_id (snd entry) = fst entry"
  using assms
proof (induction m)
  case Nil
  then show ?case by simp
next
  case (Cons e m)
  obtain k' v' where e: "e = (k', v')" by (cases e)
  have "\<forall>entry \<in> set (map_set m k r). ach_id (snd entry) = fst entry"
    using Cons by simp
  then show ?case using Cons.prems by (simp add: e)
qed

lemma distinct_map_set: "distinct (map fst m) \<Longrightarrow> distinct (map fst (map_set m k v))"
  by (simp add: map_fst_map_set)

lemma foldl_invariant:
  assumes "P acc" "\<And>m x. P m \<Longrightarrow> x \<in> set xs \<Longrightarrow> P (f m x)"
  shows "P (foldl f acc xs)"
  using assms by (induction xs arbitrary: acc) simp_all

lemma new_Map_keyed:
  fixes records :: "achievement list"
  shows
  "distinct (map fst (new_Map (map (\<lambda>r. (ach_id r, r)) records))) \<and>
   (\<forall>entry \<in> set (new_Map (map (\<lambda>r. (ach_id r, r)) records)). ach_id (snd entry) = fst entry)"
  unfolding new_Map_def
proof (rule foldl_invariant)
  show "distinct (map fst []) \<and> (\<forall>entry \<in> set []. ach_id (snd entry) = fst entry)"
    by simp
next
  fix m :: "(string \<times> achievement) list" and x
  assume m: "distinct (map fst m) \<and> (\<forall>entry \<in> set m. ach_id (snd entry) = fst entry)"
    and x: "x \<in> set (map (\<lambda>r. (ach_id r, r)) records)"
  obtain r :: achievement where r: "x = (ach_id r, r)" using x by auto
  have "distinct (map fst (map_set m (ach_id r) r))"
    using m by (intro distinct_map_set) simp
  moreover have "\<forall>entry \<in> set (map_set m (ach_id r) r). ach_id (snd entry) = fst entry"
    using m by (intro keyed_map_set) simp_all
  ultimately show "distinct (map fst (case x of (k, v) \<Rightarrow> map_set m k v)) \<and>
      (\<forall>entry \<in> set (case x of (k, v) \<Rightarrow> map_set m k v). ach_id (snd entry) = fst entry)"
    by (simp add: r)
qed

lemma loaded_achievements_keyed:
  fixes stored_records :: "achievement list option"
  shows
  "distinct (map fst (new_Map (case stored_records of None \<Rightarrow> []
                                | Some records \<Rightarrow> map (\<lambda>r. (ach_id r, r)) records))) \<and>
   (\<forall>entry \<in> set (new_Map (case stored_records of None \<Rightarrow> []
                                | Some records \<Rightarrow> map (\<lambda>r. (ach_id r, r)) records)).
      ach_id (snd entry) = fst entry)"
proof (cases stored_records)
  case None
  then show ?thesis by (simp add: new_Map_def)
next
  case (Some records)
  then show ?thesis using new_Map_keyed [of records] by simp
qed

lemma tracker_ok_loadProgress:
  assumes "tracker_ok a"
  shows "tracker_ok (snd (loadProgress a))"
proof (cases "localStorage a")
  case (Document progress)
  have "snd (loadProgress a) =
      a\<lparr>visitedPages :=
               new_Set (case visitedPages_json progress of None \<Rightarrow> [] | Some xs \<Rightarrow> xs),
             completedInteractions :=
               (case completedInteractions_json progress of
                  None \<Rightarrow> Map.empty
                | Some obj \<Rightarrow> map_option PlainData \<circ> obj),
             unlockedSecrets :=
               new_Set (case unlockedSecrets_json progress of None \<Rightarrow> [] | Some xs \<Rightarrow> xs),
             achievements :=
               new_Map (case achievements_json progress of
                          None \<Rightarrow> []
                        | Some records \<Rightarrow> map (\<lambda>r. (ach_id r, r)) records),
             collectibles :=
               (case collectibles_json progress of
                  None \<Rightarrow> Map.empty
                | Some obj \<Rightarrow> map_option PlainData \<circ> obj)\<rparr>"
    using Document by (simp add: loadProgress_def)
  moreover have "(case completedInteractions_json progress of
                  None \<Rightarrow> Map.empty
                | Some obj \<Rightarrow> map_option PlainData \<circ> obj) p \<noteq> Some (LiveSet xs)" for p xs
    by (auto split: option.splits)
  moreover have "(case collectibles_json progress of
                  None \<Rightarrow> Map.empty
                | Some obj \<Rightarrow> map_option PlainData \<circ> obj) p \<noteq> Some (LiveSet xs)" for p xs
    by (auto split: option.splits)
  ultimately show ?thesis
    using loaded_achievements_keyed [of "achievements_json progress"]
    by (simp add: tracker_ok_def distinct_new_Set)
qed (use assms in \<open>simp_all add: loadProgress_def\<close>)

lemma tracker_ok_new_PageManager: "tracker_ok (snd (new_PageManager b))"
proof -
  let ?b = "b\<lparr>currentPage := ''landing'', pageHistory := [], pages := [],
             visitedPages := [], completedInteractions := Map.empty, unlockedSecrets := [],
             achievements := [], collectibles := Map.empty\<rparr>"
  have "tracker_ok ?b" by (simp add: tracker_ok_def)
  then have "tracker_ok (snd (loadProgress ?b))" by (rule tracker_ok_loadProgress)
  moreover have "tracker_ok (initializePages s) = tracker_ok s" for s
    by (simp add: tracker_ok_def initializePages_def)
  ultimately show ?thesis
    by (cases "loadProgress ?b")
       (auto simp: new_PageManager_def new_ProgressTracker_def and_then_def split: sum.splits)
qed

lemma tracker_ok_same:
  assumes "tracker_ok a" "visitedPages a' = visitedPages a"
    "completedInteractions a' = completedInteractions a"
    "unlockedSecrets a' = unlockedSecrets a" "achievements a' = achievements a"
    "collectibles a' = collectibles a"
  shows "tracker_ok a'"
  using assms by (simp add: tracker_ok_def)

lemma tracker_ok_markPageVisited: "tracker_ok a \<Longrightarrow> tracker_ok (snd (markPageVisited p a))"
  by (auto simp: markPageVisited_def tracker_ok_def set_add_def set_has_def)

lemma tracker_ok_unlockSecret: "tracker_ok a \<Longrightarrow> tracker_ok (snd (unlockSecret p a))"
  by (auto simp: unlockSecret_def tracker_ok_def set_add_def set_has_def)

lemma tracker_ok_markInteractionComplete:
  "tracker_ok a \<Longrightarrow> tracker_ok (snd (markInteractionComplete p i a))"
  by (auto simp: markInteractionComplete_cases tracker_ok_def
      split: option.splits container.splits)

lemma tracker_ok_addCollectible:
  "tracker_ok a \<Longrightarrow> tracker_ok (snd (addCollectible p i a))"
  by (auto simp: addCollectible_cases tracker_ok_def split: option.splits container.splits)

lemma tracker_ok_unlockAchievement:
  "tracker_ok a \<Longrightarrow> tracker_ok (snd (unlockAchievement i a))"
  by (cases "map_has (achievements a) i")
     (auto simp: unlockAchievement_present unlockAchievement_absent Let_def tracker_ok_def
       map_has_def)

lemma tracker_ok_and_then:
  assumes "tracker_ok (snd r)" "\<And>x s. tracker_ok s \<Longrightarrow> tracker_ok (snd (f x s))"
  shows "tracker_ok (snd (and_then r f))"
  using assms by (cases r) (auto simp: and_then_def split: sum.splits)

lemma tracker_ok_trackProgress: "tracker_ok a \<Longrightarrow> tracker_ok (snd (trackProgress p a))"
  unfolding trackProgress_def
  by (rule tracker_ok_and_then) (simp_all add: tracker_ok_markPageVisited tracker_ok_unlockAchievement)

lemma tracker_ok_navigateTo:
  assumes "tracker_ok a"
  shows "tracker_ok (snd (navigateTo p t a))"
proof (cases "map_has (pages a) p")
  case False
  then show ?thesis using assms by (simp add: navigateTo_not_found tracker_ok_def)
next
  case True
  define a3 where "a3 =
     (let a1 = (if currentPage a \<noteq> p
                  then a\<lparr>pageHistory := pageHistory a @ [currentPage a]\<rparr>
                  else a);
            a2 = (if elements a1 (currentPage a1) \<and> elements a1 p
                  then executeTransition (currentPage a1) p t a1
                  else a1)
      in a2\<lparr>currentPage := p\<rparr>)"
  have n: "navigateTo p t a = trackProgress p a3"
    using True by (simp add: navigateTo_def a3_def Let_def)
  have "tracker_ok a3"
    using assms by (rule tracker_ok_same) (simp_all add: a3_def Let_def executeTransition_def)
  then show ?thesis unfolding n by (rule tracker_ok_trackProgress)
qed

lemma tracker_ok_goBack:
  assumes "tracker_ok a"
  shows "tracker_ok (snd (goBack a))"
proof (cases "pageHistory a = []")
  case True
  then show ?thesis using assms by (simp add: goBack_cases)
next
  case False
  have "tracker_ok (a\<lparr>pageHistory := butlast (pageHistory a)\<rparr>)"
    using assms by (rule tracker_ok_same) simp_all
  then show ?thesis using False tracker_ok_navigateTo by (simp add: goBack_cases)
qed

lemma tracker_ok_konami_matched: "tracker_ok a \<Longrightarrow> tracker_ok (snd (konami_matched a))"
  unfolding konami_matched_def
  by (rule tracker_ok_and_then) (simp_all add: tracker_ok_unlockAchievement tracker_ok_navigateTo)

lemma tracker_ok_handle: "tracker_ok a \<Longrightarrow> tracker_ok (handle e a)"
  by (cases e)
     (simp_all add: tracker_ok_navigateTo tracker_ok_goBack tracker_ok_konami_matched
       tracker_ok_unlockAchievement tracker_ok_markPageVisited
       tracker_ok_markInteractionComplete tracker_ok_unlockSecret tracker_ok_addCollectible,
      simp add: tracker_ok_def)

lemma tracker_ok_run: "tracker_ok a \<Longrightarrow> tracker_ok (run events a)"
  unfolding run_def by (induction events arbitrary: a) (simp_all add: tracker_ok_handle)

text \<open>What does come back after saving and loading.\<close>

lemma save_then_load_flat_containers:
  assumes "\<not> storageFull a" "tracker_ok a"
  shows "visitedPages (snd (new_ProgressTracker (snd (saveProgress a)))) = visitedPages a \<and>
         unlockedSecrets (snd (new_ProgressTracker (snd (saveProgress a)))) = unlockedSecrets a \<and>
         achievements (snd (new_ProgressTracker (snd (saveProgress a)))) = achievements a"
proof -
  have "map ((\<lambda>r. (ach_id r, r)) \<circ> snd) (achievements a) = achievements a"
    by (rule map_idI) (use assms(2) in \<open>auto simp: tracker_ok_def\<close>)
  then have k: "map (\<lambda>r. (ach_id r, r)) (map snd (achievements a)) = achievements a"
    by simp
  have "new_Map (achievements a) = achievements a"
    using assms(2) by (simp add: new_Map_distinct tracker_ok_def)
  then show ?thesis
    using assms(2) unfolding save_then_load [OF assms(1)] k
    by (simp add: new_Set_distinct tracker_ok_def)
qed


subsection \<open>The completion thresholds\<close>

lemma required_cases:
  "required pageId =
     (if pageId = ''gallery'' then Number 2
      else if pageId = ''reasons'' then Number 3
      else if pageId = ''wishes'' \<or> pageId = ''games'' then Number 1
      else if pageId \<in> set object_prototype_names then NotANumber
      else Number 1)"
  by (simp add: required_def get_property_def completionCriteria_def)

lemma isPageCompleted_threshold:
  assumes "pageId \<notin> set object_prototype_names"
  shows "isPageCompleted a pageId = Some True \<longleftrightarrow>
           (\<exists>xs. completedInteractions a pageId = Some (LiveSet xs) \<and>
                 (if pageId = ''gallery'' then 2 else if pageId = ''reasons'' then 3 else 1)
                   \<le> length xs)"
  using assms
  by (auto simp: isPageCompleted_def required_cases size_of_def
      split: option.splits container.splits)

lemma isPageCompleted_nothing_recorded:
  assumes "completedInteractions a pageId = None"
  shows "isPageCompleted a pageId = None"
  using assms by (simp add: isPageCompleted_def)

lemma completedInteractions_markInteractionComplete:
  "completedInteractions (snd (markInteractionComplete p i a)) =
     (case completedInteractions a p of
        None \<Rightarrow> (completedInteractions a)(p \<mapsto> LiveSet [i])
      | Some (LiveSet xs) \<Rightarrow>
          if i \<in> set xs then completedInteractions a
          else (completedInteractions a)(p \<mapsto> LiveSet (xs @ [i]))
      | Some (PlainData d) \<Rightarrow> completedInteractions a)"
  by (simp add: markInteractionComplete_cases split: option.splits container.splits)

lemma reasons_completed_by_third_interaction:
  assumes "completedInteractions a ''reasons'' = None" "i1 \<noteq> i2" "i1 \<noteq> i3" "i2 \<noteq> i3"
  shows "isPageCompleted
           (run [MarkInteractionComplete ''reasons'' i1,
                 MarkInteractionComplete ''reasons'' i2] a) ''reasons'' = Some False \<and>
         isPageCompleted
           (run [MarkInteractionComplete ''reasons'' i1,
                 MarkInteractionComplete ''reasons'' i2,
                 MarkInteractionComplete ''reasons'' i3] a) ''reasons'' = Some True \<and>
         isPageCompleted
           (run [MarkInteractionComplete ''reasons'' i1,
                 MarkInteractionComplete ''reasons'' i2,
                 MarkInteractionComplete ''reasons'' i3,
                 MarkInteractionComplete ''reasons'' i1] a) ''reasons'' = Some True"
proof -
  let ?s1 = "snd (markInteractionComplete ''reasons'' i1 a)"
  let ?s2 = "snd (markInteractionComplete ''reasons'' i2 ?s1)"
  let ?s3 = "snd (markInteractionComplete ''reasons'' i3 ?s2)"
  let ?s4 = "snd (markInteractionComplete ''reasons'' i1 ?s3)"
  have 1: "completedInteractions ?s1 ''reasons'' = Some (LiveSet [i1])"
    using assms(1) by (simp add: completedInteractions_markInteractionComplete)
  have 2: "completedInteractions ?s2 ''reasons'' = Some (LiveSet [i1, i2])"
    using 1 assms(2) by (simp add: completedInteractions_markInteractionComplete [of _ _ ?s1])
  have 3: "completedInteractions ?s3 ''reasons'' = Some (LiveSet [i1, i2, i3])"
    using 2 assms(3,4) by (simp add: completedInteractions_markInteractionComplete [of _ _ ?s2])
  have 4: "completedInteractions ?s4 ''reasons'' = Some (LiveSet [i1, i2, i3])"
    using 3 by (simp add: completedInteractions_markInteractionComplete [of _ _ ?s3])
  show ?thesis
    using 2 3 4 by (simp add: run_def isPageCompleted_def required_cases size_of_def)
qed

section \<open>Navigation to a page that is not registered\<close>

text \<open>
  C9. For every page id that is not a key of \<open>pages\<close>, \<open>navigateTo\<close> reports the error on
  the console and does nothing else: the state after the call is the state before it with
  the message appended, so \<open>currentPage\<close> and \<open>pageHistory\<close> are unchanged, no visit is
  recorded, no achievement is unlocked, nothing is stored and no transition is started.
\<close>

theorem navigateTo_unregistered:
  assumes "\<not> map_has (pages a) pageId"
  shows "navigateTo pageId transitionType a =
           (Inr (), a\<lparr>console := console a @ [''Page '' @ pageId @ '' not found'']\<rparr>)"
  using assms by (simp add: navigateTo_def)

theorem navigateTo_unregistered_witness:
  "\<not> map_has (pages fresh_app) ''nonexistent-section'' \<and>
   navigateTo ''nonexistent-section'' ''slide'' fresh_app =
     (Inr (), fresh_app\<lparr>console := [''Page nonexistent-section not found'']\<rparr>)"
  using navigateTo_unregistered [of fresh_app "''nonexistent-section''" "''slide''"]
  by (simp add: fresh_app_eq empty_browser_def map_has_def)

text \<open>
  C10. The constructor registers exactly the six pages landing, menu, gallery, reasons,
  wishes and games, and no event changes \<open>pages\<close>. So in every state \<open>a\<close> reached from a
  successful load, \<open>navigateTo\<close> on \<open>secret\<close> or on \<open>achievements\<close> takes the error
  branch, and the handler of the Konami code, which unlocks \<open>secret-explorer\<close> first,
  leaves \<open>currentPage\<close> and \<open>pageHistory\<close> as they were.
\<close>

theorem secret_not_registered:
  assumes "new_PageManager b = (Inr (), a0)" and "a = run events a0"
  shows "set (map fst (pages a)) =
           {''landing'', ''menu'', ''gallery'', ''reasons'', ''wishes'', ''games''} \<and>
         (\<forall>p \<in> {''secret'', ''achievements''}. \<forall>t.
            navigateTo p t a =
              (Inr (), a\<lparr>console := console a @ [''Page '' @ p @ '' not found'']\<rparr>)) \<and>
         map_has (achievements (snd (konami_matched a))) ''secret-explorer'' \<and>
         currentPage (snd (konami_matched a)) = currentPage a \<and>
         pageHistory (snd (konami_matched a)) = pageHistory a"
proof -
  have P: "map fst (pages a) =
      [''landing'', ''menu'', ''gallery'', ''reasons'', ''wishes'', ''games'']"
    using assms pages_new_PageManager [of b a0] by simp
  have 1: "\<not> map_has (pages a) ''secret''"
    unfolding map_has_def P by simp
  have 2: "\<not> map_has (pages a) ''achievements''"
    unfolding map_has_def P by simp
  have 3: "set (map fst (pages a)) =
           {''landing'', ''menu'', ''gallery'', ''reasons'', ''wishes'', ''games''}"
    unfolding P by simp
  have 4: "\<forall>p \<in> {''secret'', ''achievements''}. \<forall>t.
            navigateTo p t a =
              (Inr (), a\<lparr>console := console a @ [''Page '' @ p @ '' not found'']\<rparr>)"
    using navigateTo_not_found [OF 1] navigateTo_not_found [OF 2] by blast
  show ?thesis using 3 4 konami_matched_frame [OF 1] by blast
qed

theorem secret_not_registered_witness:
  "new_PageManager empty_browser = (Inr (), fresh_app) \<and>
   set (map fst (pages (run [NavigateTo ''gallery'' ''slide'', KonamiCode] fresh_app))) =
     {''landing'', ''menu'', ''gallery'', ''reasons'', ''wishes'', ''games''} \<and>
   fst (navigateTo ''secret'' ''slide''
         (run [NavigateTo ''gallery'' ''slide'', KonamiCode] fresh_app)) = Inr () \<and>
   currentPage (snd (konami_matched
         (run [NavigateTo ''gallery'' ''slide'', KonamiCode] fresh_app))) =
     currentPage (run [NavigateTo ''gallery'' ''slide'', KonamiCode] fresh_app)"
proof -
  have b: "new_PageManager empty_browser = (Inr (), fresh_app)"
    by (simp add: fresh_app_def new_PageManager_def new_ProgressTracker_def loadProgress_def
        and_then_def empty_browser_def)
  show ?thesis
    using secret_not_registered [OF b refl, of "[NavigateTo ''gallery'' ''slide'', KonamiCode]"] b
    by simp
qed

section \<open>Completion percentage\<close>

text \<open>
  C6. \<open>getCompletionPercentage\<close> only reads the state. Where \<open>visitedPages\<close> has no
  member twice, as a \<open>Set\<close> always has, it is
  \<open>round (100 * |visitedPages \<inter> {gallery, reasons, wishes, games}| / 4)\<close>, an integer
  from 0 to 100: 50 when exactly gallery and wishes of the four are visited, 100 when all
  four are, and 0 when only landing, menu, secret or achievements are.
\<close>

theorem getCompletionPercentage_formula:
  assumes "distinct (visitedPages a)"
  shows "getCompletionPercentage a =
           round (100 * rat_of_nat (card (set (visitedPages a) \<inter>
                    {''gallery'', ''reasons'', ''wishes'', ''games''})) / 4) \<and>
         0 \<le> getCompletionPercentage a \<and> getCompletionPercentage a \<le> 100 \<and>
         (set (visitedPages a) \<inter> {''gallery'', ''reasons'', ''wishes'', ''games''} =
            {''gallery'', ''wishes''} \<longrightarrow> getCompletionPercentage a = 50) \<and>
         ({''gallery'', ''reasons'', ''wishes'', ''games''} \<subseteq> set (visitedPages a) \<longrightarrow>
            getCompletionPercentage a = 100) \<and>
         (set (visitedPages a) \<subseteq> {''landing'', ''menu'', ''secret'', ''achievements''} \<longrightarrow>
            getCompletionPercentage a = 0)"
proof -
  let ?V = "{''gallery'', ''reasons'', ''wishes'', ''games''}"
  let ?S = "set (visitedPages a) \<inter> ?V"
  have pct: "getCompletionPercentage a = 25 * int (card ?S)"
    unfolding getCompletionPercentage_eq length_filter_mem [OF assms] set_validPages ..
  have "100 * rat_of_nat (card ?S) / 4 = of_int (25 * int (card ?S))" by simp
  then have r: "round (100 * rat_of_nat (card ?S) / 4) = 25 * int (card ?S)"
    by (simp only: round_of_int)
  have "card ?S \<le> card ?V" by (intro card_mono) auto
  also have "card ?V = 4" by simp
  finally have le: "card ?S \<le> 4" .
  have c2: "card ?S = 2" if "?S = {''gallery'', ''wishes''}"
    unfolding that by simp
  have c4: "card ?S = 4" if "?V \<subseteq> set (visitedPages a)"
  proof -
    have "?S = ?V" using that by blast
    then show ?thesis by simp
  qed
  have c0: "card ?S = 0"
    if "set (visitedPages a) \<subseteq> {''landing'', ''menu'', ''secret'', ''achievements''}"
  proof -
    have "?S = {}" using that by auto
    then show ?thesis by simp
  qed
  show ?thesis using pct r le c2 c4 c0 by simp
qed




theorem getCompletionPercentage_formula_witness:
  "distinct (visitedPages (fresh_app\<lparr>visitedPages := [''landing'', ''gallery'', ''wishes'']\<rparr>)) \<and>
   set (visitedPages (fresh_app\<lparr>visitedPages := [''landing'', ''gallery'', ''wishes'']\<rparr>)) \<inter>
     {''gallery'', ''reasons'', ''wishes'', ''games''} = {''gallery'', ''wishes''} \<and>
   getCompletionPercentage (fresh_app\<lparr>visitedPages := [''landing'', ''gallery'', ''wishes'']\<rparr>) = 50"
proof -
  let ?a = "fresh_app\<lparr>visitedPages := [''landing'', ''gallery'', ''wishes'']\<rparr>"
  have d: "distinct (visitedPages ?a)" by simp
  have s: "set (visitedPages ?a) \<inter> {''gallery'', ''reasons'', ''wishes'', ''games''} =
      {''gallery'', ''wishes''}" by auto
  show ?thesis using getCompletionPercentage_formula [OF d] d s by blast
qed

section \<open>Going back\<close>

text \<open>
  C1 says that the history is a stack: from landing, after gallery and then wishes, going
  back three times shows gallery, then landing, then changes nothing. The code keeps to
  that for one step. After \<open>navigateTo('gallery')\<close> and \<open>navigateTo('wishes')\<close> from the
  landing page, the first \<open>goBack()\<close> shows gallery. It does so through \<open>navigateTo\<close>,
  which pushes the page being left, so the history is then landing, wishes: the second
  \<open>goBack()\<close> shows wishes again, not landing, and the third shows gallery instead of
  doing nothing. The history is never empty again.
\<close>

theorem goBack_twice_returns_to_wishes:
  "currentPage (run [NavigateTo ''gallery'' ''slide'', NavigateTo ''wishes'' ''slide'',
                      GoBack] fresh_app) = ''gallery'' \<and>
   pageHistory (run [NavigateTo ''gallery'' ''slide'', NavigateTo ''wishes'' ''slide'',
                      GoBack] fresh_app) = [''landing'', ''wishes''] \<and>
   currentPage (run [NavigateTo ''gallery'' ''slide'', NavigateTo ''wishes'' ''slide'',
                      GoBack, GoBack] fresh_app) = ''wishes'' \<and>
   pageHistory (run [NavigateTo ''gallery'' ''slide'', NavigateTo ''wishes'' ''slide'',
                      GoBack, GoBack] fresh_app) = [''landing'', ''gallery''] \<and>
   currentPage (run [NavigateTo ''gallery'' ''slide'', NavigateTo ''wishes'' ''slide'',
                      GoBack, GoBack, GoBack] fresh_app) = ''gallery'' \<and>
   pageHistory (run [NavigateTo ''gallery'' ''slide'', NavigateTo ''wishes'' ''slide'',
                      GoBack, GoBack, GoBack] fresh_app) = [''landing'', ''wishes'']"
proof -
  let ?s1 = "snd (navigateTo ''gallery'' ''slide'' fresh_app)"
  let ?s2 = "snd (navigateTo ''wishes'' ''slide'' ?s1)"
  let ?s3 = "snd (goBack ?s2)"
  let ?s4 = "snd (goBack ?s3)"
  let ?s5 = "snd (goBack ?s4)"
  have 0: "currentPage fresh_app = ''landing''" "pageHistory fresh_app = []"
    by (simp_all add: fresh_app_eq empty_browser_def)
  have 1: "currentPage ?s1 = ''gallery'' \<and> pageHistory ?s1 = [''landing'']"
    using navigateTo_registered [of fresh_app "''gallery''" "''slide''"] 0
    by (simp add: map_has_pages_fresh_app)
  have 2: "currentPage ?s2 = ''wishes'' \<and> pageHistory ?s2 = [''landing'', ''gallery'']"
    using navigateTo_registered [of ?s1 "''wishes''" "''slide''"] 1
    by (simp add: map_has_pages_fresh_app)
  have 3: "currentPage ?s3 = ''gallery'' \<and> pageHistory ?s3 = [''landing'', ''wishes'']"
    using goBack_registered [of ?s2] 2 by (simp add: map_has_pages_fresh_app)
  have 4: "currentPage ?s4 = ''wishes'' \<and> pageHistory ?s4 = [''landing'', ''gallery'']"
    using goBack_registered [of ?s3] 3 by (simp add: map_has_pages_fresh_app)
  have 5: "currentPage ?s5 = ''gallery'' \<and> pageHistory ?s5 = [''landing'', ''wishes'']"
    using goBack_registered [of ?s4] 4 by (simp add: map_has_pages_fresh_app)
  show ?thesis using 3 4 5 by (simp add: run_def)
qed

section \<open>Visiting a page\<close>

text \<open>
  C5 does not hold as stated: it promises \<open>true\<close> and a write from every prior state, and
  \<open>markPageVisited\<close> calls \<open>saveProgress\<close> without catching anything. On a full storage
  the first call for a page that is not yet visited adds the page, then throws
  \<open>QuotaExceededError\<close> instead of returning \<open>true\<close>, and nothing is stored.
\<close>

theorem markPageVisited_full_storage_throws:
  "''gallery'' \<notin> set (visitedPages (fresh_app\<lparr>storageFull := True\<rparr>)) \<and>
   fst (markPageVisited ''gallery'' (fresh_app\<lparr>storageFull := True\<rparr>)) =
     Inl QuotaExceededError \<and>
   visitedPages (snd (markPageVisited ''gallery'' (fresh_app\<lparr>storageFull := True\<rparr>))) =
     [''gallery''] \<and>
   localStorage (snd (markPageVisited ''gallery'' (fresh_app\<lparr>storageFull := True\<rparr>))) =
     NoItem"
proof -
  have n: "''gallery'' \<notin> set (visitedPages (fresh_app\<lparr>storageFull := True\<rparr>))"
    by (simp add: fresh_app_eq empty_browser_def)
  have v: "visitedPages (fresh_app\<lparr>storageFull := True\<rparr>) = []"
    by (simp add: fresh_app_eq empty_browser_def)
  show ?thesis
    using n by (simp add: markPageVisited_absent [OF n] v)
qed

text \<open>
  C5 as the code has it. \<open>markPageVisited\<close> is idempotent and reports first visits where
  the storage takes the write. On a page that is not yet in \<open>visitedPages\<close> the call
  appends the page and calls \<open>saveProgress\<close>: when the storage takes the write, the
  snapshot of the state that contains the page is stored and the call returns \<open>true\<close>;
  when the storage throws, the call throws \<open>QuotaExceededError\<close>, the page stays
  added and the stored text is the one from before. On a page that is already there it
  returns \<open>false\<close> and changes nothing at all, so nothing is written. The second of two
  calls in sequence is always of that kind, whatever the first one did, and after them
  the page is in \<open>visitedPages\<close> exactly once.
\<close>

theorem markPageVisited_idempotent:
  "let first = markPageVisited pageId a;
       second = markPageVisited pageId (snd first)
   in (pageId \<notin> set (visitedPages a) \<longrightarrow>
         visitedPages (snd first) = visitedPages a @ [pageId]) \<and>
      (pageId \<notin> set (visitedPages a) \<and> \<not> storageFull a \<longrightarrow>
         fst first = Inr True \<and>
         localStorage (snd first) = Document (progress_json (snd first) (clock a (ticks a)))) \<and>
      (pageId \<notin> set (visitedPages a) \<and> storageFull a \<longrightarrow>
         fst first = Inl QuotaExceededError \<and>
         localStorage (snd first) = localStorage a) \<and>
      (pageId \<in> set (visitedPages a) \<longrightarrow> first = (Inr False, a)) \<and>
      second = (Inr False, snd first) \<and>
      (distinct (visitedPages a) \<longrightarrow> count_list (visitedPages (snd second)) pageId = 1)"
proof -
  let ?first = "markPageVisited pageId a"
  have 0: "visitedPages (snd ?first) = visitedPages a @ [pageId]"
    if "pageId \<notin> set (visitedPages a)"
    using that by (simp add: visitedPages_markPageVisited set_add_def set_has_def)
  have 1: "fst ?first = Inr True \<and>
      localStorage (snd ?first) = Document (progress_json (snd ?first) (clock a (ticks a)))"
    if "pageId \<notin> set (visitedPages a)" "\<not> storageFull a"
    using that by (simp add: markPageVisited_absent)
  have 5: "fst ?first = Inl QuotaExceededError \<and> localStorage (snd ?first) = localStorage a"
    if "pageId \<notin> set (visitedPages a)" "storageFull a"
    using that by (simp add: markPageVisited_absent)
  have 2: "?first = (Inr False, a)" if "pageId \<in> set (visitedPages a)"
    using that by (rule markPageVisited_present)
  have m: "pageId \<in> set (visitedPages (snd ?first))"
    by (simp add: visitedPages_markPageVisited set_add_def set_has_def)
  have 3: "markPageVisited pageId (snd ?first) = (Inr False, snd ?first)"
    using m by (rule markPageVisited_present)
  have 4: "count_list (visitedPages (snd ?first)) pageId = 1" if "distinct (visitedPages a)"
    using that
    by (simp add: visitedPages_markPageVisited set_add_def set_has_def
        count_list_append_one count_list_distinct)
  show ?thesis using 0 1 2 3 4 5 by (simp add: Let_def)
qed

theorem markPageVisited_idempotent_witness:
  "''gallery'' \<notin> set (visitedPages fresh_app) \<and> \<not> storageFull fresh_app \<and>
   distinct (visitedPages fresh_app) \<and>
   fst (markPageVisited ''gallery'' fresh_app) = Inr True \<and>
   visitedPages (snd (markPageVisited ''gallery'' fresh_app)) = [''gallery''] \<and>
   markPageVisited ''gallery'' (snd (markPageVisited ''gallery'' fresh_app)) =
     (Inr False, snd (markPageVisited ''gallery'' fresh_app)) \<and>
   count_list (visitedPages (snd (markPageVisited ''gallery''
       (snd (markPageVisited ''gallery'' fresh_app))))) ''gallery'' = 1 \<and>
   ''gallery'' \<notin> set (visitedPages (fresh_app\<lparr>storageFull := True\<rparr>)) \<and>
   storageFull (fresh_app\<lparr>storageFull := True\<rparr>) \<and>
   fst (markPageVisited ''gallery'' (fresh_app\<lparr>storageFull := True\<rparr>)) =
     Inl QuotaExceededError \<and>
   markPageVisited ''gallery''
       (snd (markPageVisited ''gallery'' (fresh_app\<lparr>storageFull := True\<rparr>))) =
     (Inr False, snd (markPageVisited ''gallery'' (fresh_app\<lparr>storageFull := True\<rparr>))) \<and>
   ''gallery'' \<in> set (visitedPages (snd (markPageVisited ''gallery'' fresh_app))) \<and>
   fst (markPageVisited ''gallery'' (snd (markPageVisited ''gallery'' fresh_app))) = Inr False"
proof -
  let ?full = "fresh_app\<lparr>storageFull := True\<rparr>"
  have f: "''gallery'' \<notin> set (visitedPages fresh_app)" "\<not> storageFull fresh_app"
    "distinct (visitedPages fresh_app)" "visitedPages fresh_app = []"
    by (simp_all add: fresh_app_eq empty_browser_def)
  have g: "''gallery'' \<notin> set (visitedPages ?full)" "storageFull ?full"
    by (simp_all add: fresh_app_eq empty_browser_def)
  have 1: "fst (markPageVisited ''gallery'' fresh_app) = Inr True \<and>
      visitedPages (snd (markPageVisited ''gallery'' fresh_app)) = [''gallery''] \<and>
      markPageVisited ''gallery'' (snd (markPageVisited ''gallery'' fresh_app)) =
        (Inr False, snd (markPageVisited ''gallery'' fresh_app)) \<and>
      count_list (visitedPages (snd (markPageVisited ''gallery''
        (snd (markPageVisited ''gallery'' fresh_app))))) ''gallery'' = 1"
    using markPageVisited_idempotent [of "''gallery''" fresh_app] f
    unfolding Let_def by simp
  have 2: "fst (markPageVisited ''gallery'' ?full) = Inl QuotaExceededError \<and>
      markPageVisited ''gallery'' (snd (markPageVisited ''gallery'' ?full)) =
        (Inr False, snd (markPageVisited ''gallery'' ?full))"
    using markPageVisited_idempotent [of "''gallery''" ?full] g
    unfolding Let_def by blast
  have 3: "''gallery'' \<in> set (visitedPages (snd (markPageVisited ''gallery'' fresh_app)))"
    using 1 by simp
  have 4: "fst (markPageVisited ''gallery'' (snd (markPageVisited ''gallery'' fresh_app))) =
      Inr False"
    using 1 by simp
  show ?thesis using f(1-3) g 1 2 3 4 by blast
qed

section \<open>Storage failures\<close>

text \<open>
  C3 does not hold as stated: neither method catches anything. On a stored text that
  \<open>JSON.parse\<close> rejects, \<open>loadProgress\<close> throws \<open>SyntaxError\<close>, and so do the two
  constructors that call it; on a full storage \<open>saveProgress\<close> throws, and so does the
  mutation that called it.
\<close>

theorem unparseable_snapshot_raises:
  "loadProgress (empty_browser\<lparr>localStorage := Unparseable\<rparr>) =
     (Inl SyntaxError, empty_browser\<lparr>localStorage := Unparseable\<rparr>) \<and>
   fst (new_PageManager (empty_browser\<lparr>localStorage := Unparseable\<rparr>)) = Inl SyntaxError \<and>
   fst (saveProgress (fresh_app\<lparr>storageFull := True\<rparr>)) = Inl QuotaExceededError \<and>
   fst (markPageVisited ''gallery'' (fresh_app\<lparr>storageFull := True\<rparr>)) =
     Inl QuotaExceededError"
  by (simp add: loadProgress_def new_PageManager_def new_ProgressTracker_def and_then_def
      saveProgress_eq markPageVisited_def set_has_def fresh_app_eq empty_browser_def)

text \<open>
  C3 as the code has it. When nothing is stored (or the empty string is), \<open>loadProgress\<close>
  returns without throwing and leaves the fresh, empty containers of the constructor. On an
  unparseable text it throws \<open>SyntaxError\<close> to the constructor, which throws it on. When
  the storage refuses the write, \<open>saveProgress\<close> throws the storage error to the mutation
  that called it, and the change that mutation had made in memory stays; otherwise it
  stores the snapshot.
\<close>

theorem store_adapter_outcomes:
  "(localStorage a = NoItem \<or> localStorage a = EmptyText \<longrightarrow>
      loadProgress a = (Inr (), a) \<and>
      new_ProgressTracker a =
        (Inr (), a\<lparr>visitedPages := [], completedInteractions := Map.empty,
                    unlockedSecrets := [], achievements := [], collectibles := Map.empty\<rparr>)) \<and>
   (localStorage a = Unparseable \<longrightarrow>
      loadProgress a = (Inl SyntaxError, a) \<and>
      fst (new_ProgressTracker a) = Inl SyntaxError \<and>
      fst (new_PageManager a) = Inl SyntaxError) \<and>
   (storageFull a \<longrightarrow>
      saveProgress a = (Inl QuotaExceededError, a\<lparr>ticks := Suc (ticks a)\<rparr>) \<and>
      (pageId \<notin> set (visitedPages a) \<longrightarrow>
         fst (markPageVisited pageId a) = Inl QuotaExceededError \<and>
         visitedPages (snd (markPageVisited pageId a)) = visitedPages a @ [pageId])) \<and>
   (\<not> storageFull a \<longrightarrow>
      saveProgress a =
        (Inr (), a\<lparr>ticks := Suc (ticks a),
                    localStorage := Document (progress_json a (clock a (ticks a)))\<rparr>))"
proof -
  have 1: "loadProgress a = (Inr (), a)"
    if "localStorage a = NoItem \<or> localStorage a = EmptyText"
    using that by (auto simp: loadProgress_def)
  have 2: "new_ProgressTracker a =
        (Inr (), a\<lparr>visitedPages := [], completedInteractions := Map.empty,
                    unlockedSecrets := [], achievements := [], collectibles := Map.empty\<rparr>)"
    if "localStorage a = NoItem \<or> localStorage a = EmptyText"
    using that by (auto simp: new_ProgressTracker_def loadProgress_def)
  have 3: "loadProgress a = (Inl SyntaxError, a) \<and>
      fst (new_ProgressTracker a) = Inl SyntaxError \<and>
      fst (new_PageManager a) = Inl SyntaxError"
    if "localStorage a = Unparseable"
    using that
    by (simp add: loadProgress_def new_ProgressTracker_def new_PageManager_def and_then_def)
  have 4: "fst (markPageVisited pageId a) = Inl QuotaExceededError \<and>
         visitedPages (snd (markPageVisited pageId a)) = visitedPages a @ [pageId]"
    if "storageFull a" "pageId \<notin> set (visitedPages a)"
    using that by (simp add: markPageVisited_absent)
  show ?thesis using 1 2 3 4 by (simp add: saveProgress_eq)
qed

theorem store_adapter_outcomes_witness:
  "localStorage empty_browser = NoItem \<and>
   loadProgress empty_browser = (Inr (), empty_browser) \<and>
   localStorage (empty_browser\<lparr>localStorage := Unparseable\<rparr>) = Unparseable \<and>
   fst (new_PageManager (empty_browser\<lparr>localStorage := Unparseable\<rparr>)) = Inl SyntaxError \<and>
   storageFull (fresh_app\<lparr>storageFull := True\<rparr>) \<and>
   ''gallery'' \<notin> set (visitedPages (fresh_app\<lparr>storageFull := True\<rparr>)) \<and>
   fst (markPageVisited ''gallery'' (fresh_app\<lparr>storageFull := True\<rparr>)) =
     Inl QuotaExceededError \<and>
   visitedPages (snd (markPageVisited ''gallery'' (fresh_app\<lparr>storageFull := True\<rparr>))) =
     [''gallery''] \<and>
   \<not> storageFull fresh_app \<and> fst (saveProgress fresh_app) = Inr ()"
proof -
  have 1: "localStorage empty_browser = NoItem" by (simp add: empty_browser_def)
  have 2: "localStorage (empty_browser\<lparr>localStorage := Unparseable\<rparr>) = Unparseable" by simp
  have 3: "storageFull (fresh_app\<lparr>storageFull := True\<rparr>)"
    "''gallery'' \<notin> set (visitedPages (fresh_app\<lparr>storageFull := True\<rparr>))"
    "visitedPages (fresh_app\<lparr>storageFull := True\<rparr>) = []"
    by (simp_all add: fresh_app_eq empty_browser_def)
  have 4: "\<not> storageFull fresh_app" by (simp add: fresh_app_eq empty_browser_def)
  show ?thesis
    using store_adapter_outcomes [of empty_browser]
      store_adapter_outcomes [of "empty_browser\<lparr>localStorage := Unparseable\<rparr>"]
      store_adapter_outcomes [of "fresh_app\<lparr>storageFull := True\<rparr>" "''gallery''"]
      store_adapter_outcomes [of fresh_app] 1 2 3 4
    by simp
qed


section \<open>Saving and loading again\<close>

text \<open>
  C2 says that saving and then loading gives back every container with its members. The
  code does so for three of the five. \<open>saveProgress\<close> hands the \<open>Set\<close>s of
  \<open>completedInteractions\<close> and \<open>collectibles\<close> to \<open>JSON.stringify\<close> as they are, which
  writes each as \<open>{}\<close>, and \<open>loadProgress\<close> puts the parsed values into the maps as they
  are. The visited pages, the secrets and the achievements come back; the set of completed
  interactions of gallery and the set of collectibles of wishes come back as empty plain
  objects, their members lost.
\<close>

theorem save_then_load_loses_page_sets:
  "fst (saveProgress progress_everywhere) = Inr () \<and>
   fst (new_ProgressTracker (snd (saveProgress progress_everywhere))) = Inr () \<and>
   visitedPages (snd (new_ProgressTracker (snd (saveProgress progress_everywhere)))) =
     [''gallery''] \<and>
   unlockedSecrets (snd (new_ProgressTracker (snd (saveProgress progress_everywhere)))) =
     [''konami''] \<and>
   achievements (snd (new_ProgressTracker (snd (saveProgress progress_everywhere)))) =
     [(''candle-blower'', candle_blower_record)] \<and>
   completedInteractions progress_everywhere ''gallery'' = Some (LiveSet [''photo-1'']) \<and>
   completedInteractions (snd (new_ProgressTracker (snd (saveProgress progress_everywhere))))
     ''gallery'' = Some (PlainData EmptyObject) \<and>
   collectibles progress_everywhere ''wishes'' = Some (LiveSet [''gem-1'']) \<and>
   collectibles (snd (new_ProgressTracker (snd (saveProgress progress_everywhere))))
     ''wishes'' = Some (PlainData EmptyObject)"
proof -
  have f: "\<not> storageFull progress_everywhere"
    by (simp add: progress_everywhere_def fresh_app_eq empty_browser_def)
  have s: "fst (saveProgress progress_everywhere) = Inr ()"
    using f by (simp add: saveProgress_eq)
  have c: "visitedPages progress_everywhere = [''gallery'']"
    "unlockedSecrets progress_everywhere = [''konami'']"
    "achievements progress_everywhere = [(''candle-blower'', candle_blower_record)]"
    "completedInteractions progress_everywhere = [''gallery'' \<mapsto> LiveSet [''photo-1'']]"
    "collectibles progress_everywhere = [''wishes'' \<mapsto> LiveSet [''gem-1'']]"
    by (simp_all add: progress_everywhere_def)
  have n: "new_Set [''gallery''] = [''gallery'']" "new_Set [''konami''] = [''konami'']"
    by (simp_all add: new_Set_distinct)
  have m: "new_Map [(ach_id candle_blower_record, candle_blower_record)] =
      [(''candle-blower'', candle_blower_record)]"
    by (simp add: new_Map_def candle_blower_record_def)
  show ?thesis
    unfolding save_then_load [OF f] using s by (simp add: c n m to_json_def)
qed


text \<open>
  C8 says that no container ever loses a member, also across a reload. Within a session
  that holds (\<open>progress_grows_run\<close>). After a reload the interaction set of a page
  is the plain object \<open>{}\<close>: its member is gone and it has no \<open>size\<close>, and the next
  \<open>markInteractionComplete\<close> on that page throws \<open>TypeError\<close>, because a plain object has
  no method \<open>has\<close>.
\<close>

theorem reload_empties_interaction_set:
  "completedInteractions (run [MarkInteractionComplete ''reasons'' ''reason-1''] fresh_app)
     ''reasons'' = Some (LiveSet [''reason-1'']) \<and>
   size_of (LiveSet [''reason-1'']) = Some 1 \<and>
   fst (new_PageManager (run [MarkInteractionComplete ''reasons'' ''reason-1''] fresh_app)) =
     Inr () \<and>
   completedInteractions
     (snd (new_PageManager (run [MarkInteractionComplete ''reasons'' ''reason-1''] fresh_app)))
     ''reasons'' = Some (PlainData EmptyObject) \<and>
   size_of (PlainData EmptyObject) = None \<and>
   fst (markInteractionComplete ''reasons'' ''reason-2''
     (snd (new_PageManager (run [MarkInteractionComplete ''reasons'' ''reason-1''] fresh_app)))) =
     Inl TypeError"
proof -
  let ?b = "snd (markInteractionComplete ''reasons'' ''reason-1'' fresh_app)"
  let ?r = "snd (new_PageManager ?b)"
  have b: "completedInteractions ?b ''reasons'' = Some (LiveSet [''reason-1''])"
    "localStorage ?b = Document (progress_json
        (fresh_app\<lparr>completedInteractions := [''reasons'' \<mapsto> LiveSet [''reason-1'']]\<rparr>)
        (clock fresh_app (ticks fresh_app)))"
    by (simp_all add: markInteractionComplete_cases saveProgress_eq and_then_def)
  have r: "fst (new_PageManager ?b) = Inr ()"
    "completedInteractions ?r ''reasons'' = Some (PlainData EmptyObject)"
    by (simp_all add: new_PageManager_def new_ProgressTracker_def loadProgress_def b(2)
        and_then_def initializePages_def progress_json_def to_json_def)
  have t: "fst (markInteractionComplete ''reasons'' ''reason-2'' ?r) = Inl TypeError"
    using markInteractionComplete_plain [OF r(2)] by simp
  show ?thesis using b(1) r t by (simp add: run_def size_of_def)
qed

section \<open>Completed pages\<close>



section \<open>Unlocking an achievement\<close>

text \<open>
  C4 does not hold as stated: \<open>unlockAchievement\<close> has no \<open>return\<close>. The first call for
  an id and the second both return \<open>undefined\<close>; what tells them apart is the notification,
  which the first call shows itself and the second does not.
\<close>

theorem unlockAchievement_returns_no_record:
  "fst (unlockAchievement ''candle-blower'' fresh_app) = Inr () \<and>
   fst (unlockAchievement ''candle-blower''
          (snd (unlockAchievement ''candle-blower'' fresh_app))) = Inr () \<and>
   notifications (snd (unlockAchievement ''candle-blower'' fresh_app)) = [generic_achievement] \<and>
   notifications (snd (unlockAchievement ''candle-blower''
          (snd (unlockAchievement ''candle-blower'' fresh_app)))) = [generic_achievement]"
proof -
  have d: "getAchievementData ''candle-blower'' = generic_achievement"
    by (simp add: getAchievementData_def get_property_def achievements_table_def
        object_prototype_names_def)
  have n: "\<not> map_has (achievements fresh_app) ''candle-blower''"
    by (simp add: map_has_def)
  have 1: "fst (unlockAchievement ''candle-blower'' fresh_app) = Inr ()"
    "notifications (snd (unlockAchievement ''candle-blower'' fresh_app)) = [generic_achievement]"
    by (simp_all add: unlockAchievement_absent [OF n] Let_def d)
  have 2: "unlockAchievement ''candle-blower''
          (snd (unlockAchievement ''candle-blower'' fresh_app)) =
       (Inr (), snd (unlockAchievement ''candle-blower'' fresh_app))"
    by (rule unlockAchievement_present) (rule map_has_after_unlockAchievement)
  show ?thesis using 1 by (simp add: 2)
qed

text \<open>
  C4 as the code has it. For an id that is not in \<open>achievements\<close>, \<open>unlockAchievement\<close>
  appends one record with that id, stamped with the current time, with the title,
  description and icon that \<open>getAchievementData\<close> gives: those of the table for an id of
  the table, the generic "Achievement Unlocked" ones for an id the lookup does not find.
  It then stores the snapshot and shows one notification with that data; if the storage
  throws, the record stays, nothing is stored and no notification is shown. For an id that
  is in \<open>achievements\<close> the call changes nothing, so a second call stores nothing, shows
  nothing and leaves the record as it is, and an id has exactly one entry.
\<close>

theorem unlockAchievement_idempotent:
  "let d = getAchievementData achievementId;
       unlocked = \<lparr>title = title d, description = description d, icon = icon d,
                   ach_id = achievementId, unlockedAt = clock a (ticks a)\<rparr>;
       first = unlockAchievement achievementId a;
       second = unlockAchievement achievementId (snd first)
   in (\<not> map_has (achievements a) achievementId \<longrightarrow>
         achievements (snd first) = achievements a @ [(achievementId, unlocked)] \<and>
         (\<not> storageFull a \<longrightarrow>
            fst first = Inr () \<and>
            localStorage (snd first) =
              Document (progress_json (snd first) (clock a (Suc (ticks a)))) \<and>
            notifications (snd first) = notifications a @ [d]) \<and>
         (storageFull a \<longrightarrow>
            fst first = Inl QuotaExceededError \<and>
            localStorage (snd first) = localStorage a \<and>
            notifications (snd first) = notifications a)) \<and>
      (map_has (achievements a) achievementId \<longrightarrow> first = (Inr (), a)) \<and>
      second = (Inr (), snd first) \<and>
      (distinct (map fst (achievements a)) \<longrightarrow>
         distinct (map fst (achievements (snd first))) \<and>
         length (filter (\<lambda>entry. fst entry = achievementId) (achievements (snd first))) = 1) \<and>
      (\<forall>known. map_of achievements_table achievementId = Some known \<longrightarrow> d = known) \<and>
      (get_property achievements_table achievementId = Missing \<longrightarrow> d = generic_achievement)"
proof -
  let ?d = "getAchievementData achievementId"
  let ?first = "unlockAchievement achievementId a"
  have 1: "achievements (snd ?first) = achievements a @
        [(achievementId, \<lparr>title = title ?d, description = description ?d, icon = icon ?d,
                   ach_id = achievementId, unlockedAt = clock a (ticks a)\<rparr>)]"
    if "\<not> map_has (achievements a) achievementId"
    by (simp add: unlockAchievement_absent [OF that] Let_def)
  have 2: "fst ?first = Inr () \<and>
            localStorage (snd ?first) =
              Document (progress_json (snd ?first) (clock a (Suc (ticks a)))) \<and>
            notifications (snd ?first) = notifications a @ [?d]"
    if "\<not> map_has (achievements a) achievementId" "\<not> storageFull a"
    using that(2) by (simp add: unlockAchievement_absent [OF that(1)] Let_def progress_json_def)
  have 3: "fst ?first = Inl QuotaExceededError \<and>
            localStorage (snd ?first) = localStorage a \<and>
            notifications (snd ?first) = notifications a"
    if "\<not> map_has (achievements a) achievementId" "storageFull a"
    using that(2) by (simp add: unlockAchievement_absent [OF that(1)] Let_def)
  have 4: "?first = (Inr (), a)" if "map_has (achievements a) achievementId"
    using that by (rule unlockAchievement_present)
  have 5: "unlockAchievement achievementId (snd ?first) = (Inr (), snd ?first)"
    by (rule unlockAchievement_present) (rule map_has_after_unlockAchievement)
  have 6: "distinct (map fst (achievements (snd ?first))) \<and>
         length (filter (\<lambda>entry. fst entry = achievementId) (achievements (snd ?first))) = 1"
    if "distinct (map fst (achievements a))"
    using distinct_keys_unlockAchievement [OF that, of achievementId]
      map_has_after_unlockAchievement [of achievementId a]
    by (simp add: filter_key_distinct map_has_def)
  have 7: "?d = known" if "map_of achievements_table achievementId = Some known" for known
    using that by (simp add: getAchievementData_def get_property_def)
  have 8: "?d = generic_achievement"
    if "get_property achievements_table achievementId = Missing"
    using that by (simp add: getAchievementData_def)
  show ?thesis
    unfolding Let_def using 1 2 3 4 5 6 7 8 by blast
qed

theorem unlockAchievement_idempotent_witness:
  "\<not> map_has (achievements fresh_app) ''candle-blower'' \<and> \<not> storageFull fresh_app \<and>
   distinct (map fst (achievements fresh_app)) \<and>
   get_property achievements_table ''candle-blower'' = Missing \<and>
   achievements (snd (unlockAchievement ''candle-blower'' fresh_app)) =
     [(''candle-blower'', candle_blower_record)] \<and>
   notifications (snd (unlockAchievement ''candle-blower'' fresh_app)) = [generic_achievement] \<and>
   unlockAchievement ''candle-blower'' (snd (unlockAchievement ''candle-blower'' fresh_app)) =
     (Inr (), snd (unlockAchievement ''candle-blower'' fresh_app)) \<and>
   length (filter (\<lambda>entry. fst entry = ''candle-blower'')
     (achievements (snd (unlockAchievement ''candle-blower'' fresh_app)))) = 1"
proof -
  have h: "\<not> map_has (achievements fresh_app) ''candle-blower''" "\<not> storageFull fresh_app"
    "distinct (map fst (achievements fresh_app))"
    "get_property achievements_table ''candle-blower'' = Missing"
    by (simp_all add: map_has_def get_property_def achievements_table_def
        object_prototype_names_def)
  have c: "clock fresh_app (ticks fresh_app) = ''2025-06-01T12:00:00.000Z''"
    by (simp add: fresh_app_eq empty_browser_def)
  show ?thesis
    using unlockAchievement_idempotent [of "''candle-blower''" fresh_app] h c
    unfolding Let_def
    by (simp add: candle_blower_record_def generic_achievement_def)
qed

end
